theory Spec2Isabelle
  imports Main "HOL-Library.Word"
begin

unbundle bit_operations_syntax

section \<open>The WiFi manager of bi\_wifi.cpp\<close>

text \<open>
  The manager is a C++ class over the ESP-IDF libraries. Its fields, the content of the
  non-volatile storage (NVS) and the requests it sends to the radio driver, to the
  provisioning manager and to the observer are one record, \<open>world\<close>; every member
  function takes the world and returns the new one. What the libraries answer (their
  return codes, the hardware address, whether the provisioning manager finds the device
  provisioned) is not decided by the program: it is the parameter \<open>env\<close>.
\<close>

subsection \<open>Types\<close>

datatype WiFiState = DISCONNECTED | CONNECTING | CONNECTED | PROVISIONING | ERROR

datatype esp_err_t =
  ESP_OK | ESP_FAIL | ESP_ERR_NVS_NOT_FOUND | ESP_ERR_NVS_NO_FREE_PAGES
  | ESP_ERR_NVS_NEW_VERSION_FOUND

datatype nvs_open_mode_t = NVS_READONLY | NVS_READWRITE

datatype wifi_prov_security_t = WIFI_PROV_SECURITY_0 | WIFI_PROV_SECURITY_1

text \<open>The library calls whose return code the program reads.\<close>

datatype api_call =
  NVS_FLASH_INIT | NVS_FLASH_ERASE | NVS_FLASH_INIT_AGAIN
  | ESP_NETIF_INIT | ESP_EVENT_LOOP_CREATE_DEFAULT | ESP_WIFI_INIT
  | REGISTER_WIFI_EVENT | REGISTER_IP_EVENT | ESP_WIFI_SET_MODE | ESP_WIFI_START
  | ESP_WIFI_SET_CONFIG | ESP_WIFI_CONNECT | ESP_WIFI_DISCONNECT
  | WIFI_PROV_MGR_INIT | REGISTER_WIFI_PROV_EVENT | WIFI_PROV_MGR_IS_PROVISIONED
  | WIFI_PROV_MGR_START_PROVISIONING
  | NVS_OPEN nvs_open_mode_t | NVS_ERASE_KEY string | NVS_SET_STR string
  | NVS_GET_STR_SIZE string | NVS_GET_STR string | NVS_COMMIT

record env =
  rc :: "api_call \<Rightarrow> esp_err_t"
  xEventGroupCreate_ok :: bool
  netif_sta_ok :: bool
  netif_ap_ok :: bool
  mac :: "nat \<Rightarrow> 8 word"
  provisioned :: bool

text \<open>
  The events of the ESP event loop, a base with an identifier of that base. The
  credentials-received event carries a station configuration: the array \<open>ssid[32]\<close>,
  the array \<open>password[64]\<close> that follows it in the structure, and the bytes that
  follow the two arrays in memory.
\<close>

record wifi_sta_config_t =
  sta_ssid :: string
  sta_password :: string
  sta_following :: string

datatype wifi_event_t =
  WIFI_EVENT_STA_START | WIFI_EVENT_STA_DISCONNECTED | WIFI_EVENT_AP_STACONNECTED
  | WIFI_EVENT_AP_STADISCONNECTED | WIFI_EVENT_OTHER

datatype ip_event_t = IP_EVENT_STA_GOT_IP | IP_EVENT_OTHER

datatype wifi_prov_cb_event_t =
  WIFI_PROV_START | WIFI_PROV_CRED_RECV wifi_sta_config_t | WIFI_PROV_CRED_FAIL
  | WIFI_PROV_CRED_SUCCESS | WIFI_PROV_END | WIFI_PROV_OTHER

datatype esp_event =
  WIFI_EVENT wifi_event_t | IP_EVENT ip_event_t | WIFI_PROV_EVENT wifi_prov_cb_event_t
  | OTHER_EVENT

text \<open>
  The requests the manager sends out, in the order it sends them: to the radio driver, to
  the provisioning manager, and the invocations of the observer callback. A request is
  recorded when it is sent, whatever the library answers to it.
\<close>

datatype effect =
  Radio_set_config string string
  | Radio_connect
  | Radio_disconnect
  | Prov_mgr_init
  | Prov_mgr_deinit
  | Prov_start_provisioning wifi_prov_security_t "string option" string
  | Prov_stop_provisioning
  | Callback WiFiState

record world =
  nvs_namespace :: string
  state :: WiFiState
  connection_callback :: bool
  wifi_event_group :: "32 word"
  initialized :: bool
  provisioning_active :: bool
  current_ssid :: string
  current_password :: string
  nvs :: "string \<times> string \<rightharpoonup> string"
  trace :: "effect list"

text \<open>
  The fields of the class carry their names without the trailing underscore.
  \<open>connection_callback\<close> says whether a callable observer is registered (the source
  tests the \<open>std::function\<close> for emptiness before it calls it). \<open>wifi_event_group\<close>
  holds the bits of the event group: the handlers are registered, and the bits are
  touched, only after \<open>xEventGroupCreate\<close> has returned a group. \<open>nvs\<close> maps a
  namespace and a key to the stored string.
\<close>

datatype error = Aborted api_call

definition WIFI_CONNECTED_BIT :: "32 word" where "WIFI_CONNECTED_BIT = 1"
definition WIFI_FAIL_BIT :: "32 word" where "WIFI_FAIL_BIT = 2"
definition PROVISIONING_DONE :: "32 word" where "PROVISIONING_DONE = 4"

definition NVS_KEY_SSID :: string where "NVS_KEY_SSID = ''wifi_ssid''"
definition NVS_KEY_PASSWORD :: string where "NVS_KEY_PASSWORD = ''wifi_pass''"

definition emit :: "effect \<Rightarrow> world \<Rightarrow> world" where
  "emit e w = w\<lparr>trace := trace w @ [e]\<rparr>"

text \<open>
  A \<open>std::string\<close> handed to a C interface through \<open>c_str()\<close>, and a
  \<open>const char*\<close> read back into a \<open>std::string\<close>, end at the first NUL byte.
\<close>

definition c_str :: "string \<Rightarrow> string" where
  "c_str s = takeWhile (\<lambda>c. c \<noteq> CHR 0x00) s"

text \<open>
  An array of \<open>n\<close> bytes holding \<open>s\<close>: cut to the size of the array, and filled with
  NUL bytes when \<open>s\<close> is shorter. The handler reads the two arrays of a station
  configuration through \<open>const char*\<close>: the read of the SSID starts at \<open>ssid[0]\<close> and
  ends at the first NUL byte, which is in the password or after it when all 32 bytes of
  the SSID are in use; the read of the password starts at \<open>password[0]\<close>.
\<close>

definition c_array :: "nat \<Rightarrow> string \<Rightarrow> string" where
  "c_array n s = take n (s @ replicate n (CHR 0x00))"

definition ssid_read :: "wifi_sta_config_t \<Rightarrow> string" where
  "ssid_read cfg =
     c_str (c_array 32 (sta_ssid cfg) @ c_array 64 (sta_password cfg) @ sta_following cfg)"

definition password_read :: "wifi_sta_config_t \<Rightarrow> string" where
  "password_read cfg = c_str (c_array 64 (sta_password cfg) @ sta_following cfg)"

subsection \<open>The storage interface\<close>

text \<open>
  A call that the backend fails returns the backend's code and changes nothing; a call
  that it serves reads or writes the key of the open namespace.
\<close>

definition nvs_erase_key :: "env \<Rightarrow> string \<Rightarrow> string \<Rightarrow> world \<Rightarrow> esp_err_t \<times> world" where
  "nvs_erase_key env ns key w =
     (if rc env (NVS_ERASE_KEY key) \<noteq> ESP_OK then (rc env (NVS_ERASE_KEY key), w)
      else if nvs w (ns, key) = None then (ESP_ERR_NVS_NOT_FOUND, w)
      else (ESP_OK, w\<lparr>nvs := (nvs w)((ns, key) := None)\<rparr>))"

definition nvs_set_str :: "env \<Rightarrow> string \<Rightarrow> string \<Rightarrow> string \<Rightarrow> world \<Rightarrow> esp_err_t \<times> world" where
  "nvs_set_str env ns key val w =
     (if rc env (NVS_SET_STR key) \<noteq> ESP_OK then (rc env (NVS_SET_STR key), w)
      else (ESP_OK, w\<lparr>nvs := (nvs w)((ns, key) \<mapsto> val)\<rparr>))"

definition nvs_get_str_size :: "env \<Rightarrow> string \<Rightarrow> string \<Rightarrow> world \<Rightarrow> esp_err_t + nat" where
  "nvs_get_str_size env ns key w =
     (if rc env (NVS_GET_STR_SIZE key) \<noteq> ESP_OK then Inl (rc env (NVS_GET_STR_SIZE key))
      else case nvs w (ns, key) of
             None \<Rightarrow> Inl ESP_ERR_NVS_NOT_FOUND
           | Some v \<Rightarrow> Inr (length v + 1))"

definition nvs_get_str :: "env \<Rightarrow> string \<Rightarrow> string \<Rightarrow> world \<Rightarrow> esp_err_t + string" where
  "nvs_get_str env ns key w =
     (if rc env (NVS_GET_STR key) \<noteq> ESP_OK then Inl (rc env (NVS_GET_STR key))
      else case nvs w (ns, key) of
             None \<Rightarrow> Inl ESP_ERR_NVS_NOT_FOUND
           | Some v \<Rightarrow> Inr v)"

subsection \<open>The credential store\<close>

definition clearStoredCredentials :: "env \<Rightarrow> world \<Rightarrow> bool \<times> world" where
  "clearStoredCredentials env w =
     (if rc env (NVS_OPEN NVS_READWRITE) \<noteq> ESP_OK then (False, w)
      else case nvs_erase_key env (nvs_namespace w) NVS_KEY_SSID w of (err1, w1) \<Rightarrow>
        if err1 \<noteq> ESP_OK \<and> err1 \<noteq> ESP_ERR_NVS_NOT_FOUND then (False, w1)
        else case nvs_erase_key env (nvs_namespace w1) NVS_KEY_PASSWORD w1 of (err2, w2) \<Rightarrow>
          if err2 \<noteq> ESP_OK \<and> err2 \<noteq> ESP_ERR_NVS_NOT_FOUND then (False, w2)
          else if rc env NVS_COMMIT \<noteq> ESP_OK then (False, w2)
          else (True, w2))"

definition saveCredentials :: "env \<Rightarrow> string \<Rightarrow> string \<Rightarrow> world \<Rightarrow> bool \<times> world" where
  "saveCredentials env ssid password w =
     (if rc env (NVS_OPEN NVS_READWRITE) \<noteq> ESP_OK then (False, w)
      else case nvs_set_str env (nvs_namespace w) NVS_KEY_SSID (c_str ssid) w of (err1, w1) \<Rightarrow>
        if err1 \<noteq> ESP_OK then (False, w1)
        else case nvs_set_str env (nvs_namespace w1) NVS_KEY_PASSWORD (c_str password) w1 of
          (err2, w2) \<Rightarrow>
            if err2 \<noteq> ESP_OK then (False, w2)
            else if rc env NVS_COMMIT \<noteq> ESP_OK then (False, w2)
            else (True, w2))"

text \<open>
  \<open>loadCredentials\<close> returns false (\<open>None\<close>) or true with the two output strings. Each
  key is read twice, as in the source: once for the size of the buffer, once for the
  value, which is then read as a C string.
\<close>

definition loadCredentials :: "env \<Rightarrow> world \<Rightarrow> (string \<times> string) option" where
  "loadCredentials env w =
     (if rc env (NVS_OPEN NVS_READONLY) \<noteq> ESP_OK then None
      else case nvs_get_str_size env (nvs_namespace w) NVS_KEY_SSID w of
        Inl _ \<Rightarrow> None
      | Inr ssid_len \<Rightarrow>
         (case nvs_get_str env (nvs_namespace w) NVS_KEY_SSID w of
            Inl _ \<Rightarrow> None
          | Inr ssid_buf \<Rightarrow>
             (case nvs_get_str_size env (nvs_namespace w) NVS_KEY_PASSWORD w of
                Inl _ \<Rightarrow> None
              | Inr pass_len \<Rightarrow>
                 (case nvs_get_str env (nvs_namespace w) NVS_KEY_PASSWORD w of
                    Inl _ \<Rightarrow> None
                  | Inr pass_buf \<Rightarrow> Some (c_str ssid_buf, c_str pass_buf)))))"

definition hasStoredCredentials :: "env \<Rightarrow> world \<Rightarrow> bool" where
  "hasStoredCredentials env w = (loadCredentials env w \<noteq> None)"

subsection \<open>State and observer\<close>

definition updateState :: "WiFiState \<Rightarrow> world \<Rightarrow> world" where
  "updateState new_state w =
     (if state w \<noteq> new_state then
        (let w1 = w\<lparr>state := new_state\<rparr>
         in if connection_callback w1 then emit (Callback (state w1)) w1 else w1)
      else w)"

definition setConnectionCallback :: "bool \<Rightarrow> world \<Rightarrow> world" where
  "setConnectionCallback callback w = w\<lparr>connection_callback := callback\<rparr>"

definition getState :: "world \<Rightarrow> WiFiState" where
  "getState w = state w"

definition getSSID :: "world \<Rightarrow> string" where
  "getSSID w = (if state w \<noteq> CONNECTED then [] else current_ssid w)"

subsection \<open>Initialisation\<close>

text \<open>
  \<open>ESP_ERROR_CHECK\<close> aborts the program when the call it wraps does not return
  \<open>ESP_OK\<close>: the result \<open>Inl (Aborted call)\<close>. Erasing the flash empties the storage.
\<close>

definition initNVS :: "env \<Rightarrow> world \<Rightarrow> error + bool \<times> world" where
  "initNVS env w =
     (let ret = rc env NVS_FLASH_INIT
      in if ret = ESP_ERR_NVS_NO_FREE_PAGES \<or> ret = ESP_ERR_NVS_NEW_VERSION_FOUND then
           (if rc env NVS_FLASH_ERASE \<noteq> ESP_OK then Inl (Aborted NVS_FLASH_ERASE)
            else Inr (rc env NVS_FLASH_INIT_AGAIN = ESP_OK, w\<lparr>nvs := Map.empty\<rparr>))
         else Inr (ret = ESP_OK, w))"

definition initWiFi :: "env \<Rightarrow> world \<Rightarrow> error + bool \<times> world" where
  "initWiFi env w =
     (if \<not> xEventGroupCreate_ok env then Inr (False, w)
      else let w1 = w\<lparr>wifi_event_group := 0\<rparr> in
        if rc env ESP_NETIF_INIT \<noteq> ESP_OK then Inl (Aborted ESP_NETIF_INIT)
        else if rc env ESP_EVENT_LOOP_CREATE_DEFAULT \<noteq> ESP_OK
          then Inl (Aborted ESP_EVENT_LOOP_CREATE_DEFAULT)
        else if \<not> netif_sta_ok env then Inr (False, w1)
        else if \<not> netif_ap_ok env then Inr (False, w1)
        else if rc env ESP_WIFI_INIT \<noteq> ESP_OK then Inl (Aborted ESP_WIFI_INIT)
        else if rc env REGISTER_WIFI_EVENT \<noteq> ESP_OK then Inl (Aborted REGISTER_WIFI_EVENT)
        else if rc env REGISTER_IP_EVENT \<noteq> ESP_OK then Inl (Aborted REGISTER_IP_EVENT)
        else if rc env ESP_WIFI_SET_MODE \<noteq> ESP_OK then Inl (Aborted ESP_WIFI_SET_MODE)
        else if rc env ESP_WIFI_START \<noteq> ESP_OK then Inl (Aborted ESP_WIFI_START)
        else Inr (True, w1))"

definition init :: "env \<Rightarrow> world \<Rightarrow> error + bool \<times> world" where
  "init env w =
     (if initialized w then Inr (True, w)
      else case initNVS env w of
        Inl e \<Rightarrow> Inl e
      | Inr (ok1, w1) \<Rightarrow>
          if \<not> ok1 then Inr (False, w1)
          else (case initWiFi env w1 of
                  Inl e \<Rightarrow> Inl e
                | Inr (ok2, w2) \<Rightarrow>
                    if \<not> ok2 then Inr (False, w2)
                    else Inr (True, updateState DISCONNECTED (w2\<lparr>initialized := True\<rparr>))))"

text \<open>
  The guard \<^verbatim>\<open>!initialized_ && !init()\<close> that opens \<open>connect\<close> and
  \<open>startProvisioning\<close>: \<open>Inr (False, _)\<close> when the guard fires, \<open>init\<close> being
  called only on a manager that is not initialised.
\<close>

definition ensure_initialized :: "env \<Rightarrow> world \<Rightarrow> error + bool \<times> world" where
  "ensure_initialized env w = (if \<not> initialized w then init env w else Inr (True, w))"

subsection \<open>Connecting and disconnecting\<close>

definition disconnect :: "env \<Rightarrow> world \<Rightarrow> bool \<times> world" where
  "disconnect env w =
     (if \<not> initialized w then (False, w)
      else let w1 = emit Radio_disconnect w in
        if rc env ESP_WIFI_DISCONNECT \<noteq> ESP_OK then (False, w1)
        else (True, updateState DISCONNECTED w1))"

text \<open>
  The overload \<open>connect(ssid, password, save)\<close>, here \<open>connect_with\<close>. The result of
  \<open>saveCredentials\<close> is dropped, as in the source; \<open>strncpy\<close> copies at most 31 bytes
  of the SSID and 63 of the password into the zeroed station configuration.
\<close>

definition connect_with :: "env \<Rightarrow> string \<Rightarrow> string \<Rightarrow> bool \<Rightarrow> world \<Rightarrow> error + bool \<times> world" where
  "connect_with env ssid password save w =
     (case ensure_initialized env w of
        Inl e \<Rightarrow> Inl e
      | Inr (ok, w1) \<Rightarrow>
          if \<not> ok then Inr (False, w1)
          else
            let w2 = (if state w1 = CONNECTING \<or> state w1 = CONNECTED
                      then snd (disconnect env w1) else w1);
                w3 = (if save then snd (saveCredentials env ssid password w2) else w2);
                w4 = w3\<lparr>wifi_event_group :=
                          wifi_event_group w3 AND NOT (WIFI_CONNECTED_BIT OR WIFI_FAIL_BIT)\<rparr>;
                w5 = emit (Radio_set_config (take 31 (c_str ssid)) (take 63 (c_str password))) w4
            in if rc env ESP_WIFI_SET_CONFIG \<noteq> ESP_OK then Inl (Aborted ESP_WIFI_SET_CONFIG)
               else let w6 = emit Radio_connect w5 in
                 if rc env ESP_WIFI_CONNECT \<noteq> ESP_OK then Inl (Aborted ESP_WIFI_CONNECT)
                 else Inr (True, (updateState CONNECTING w6)
                                   \<lparr>current_ssid := ssid, current_password := password\<rparr>))"

text \<open>
  The name of the access point that \<open>connect()\<close> derives from the hardware address:
  \<open>snprintf(ap_name, 32, "zubIOT_%02X%02X%02X", mac[3], mac[4], mac[5])\<close>.
\<close>

definition hex_digit :: "nat \<Rightarrow> char" where
  "hex_digit d = (''0123456789ABCDEF'' ! (d mod 16))"

definition hex02X :: "8 word \<Rightarrow> string" where
  "hex02X b = [hex_digit (unat b div 16), hex_digit (unat b mod 16)]"

definition ap_name :: "env \<Rightarrow> string" where
  "ap_name env = ''zubIOT_'' @ hex02X (mac env 3) @ hex02X (mac env 4) @ hex02X (mac env 5)"

text \<open>
  \<open>connect()\<close> and \<open>startProvisioning\<close> call each other, and nothing in the source
  bounds the recursion: the first argument is the number of nested calls allowed, and
  \<open>None\<close> says that it was used up.
\<close>

fun connect :: "nat \<Rightarrow> env \<Rightarrow> world \<Rightarrow> (error + bool \<times> world) option"
  and startProvisioning ::
    "nat \<Rightarrow> env \<Rightarrow> string \<Rightarrow> string \<Rightarrow> 8 word \<Rightarrow> string \<Rightarrow> world \<Rightarrow> (error + bool \<times> world) option"
where
  "connect 0 env w = None"
| "connect (Suc n) env w =
     (case ensure_initialized env w of
        Inl e \<Rightarrow> Some (Inl e)
      | Inr (ok, w1) \<Rightarrow>
          if \<not> ok then Some (Inr (False, w1))
          else (case loadCredentials env w1 of
                  Some (ssid, password) \<Rightarrow> Some (connect_with env ssid password False w1)
                | None \<Rightarrow> startProvisioning n env (ap_name env) [] 1 ''abcd1234'' w1))"
| "startProvisioning 0 env ap_ssid ap_password security pop w = None"
| "startProvisioning (Suc n) env ap_ssid ap_password security pop w =
     (case ensure_initialized env w of
        Inl e \<Rightarrow> Some (Inl e)
      | Inr (ok, w1) \<Rightarrow>
          if \<not> ok then Some (Inr (False, w1))
          else if provisioning_active w1 then Some (Inr (True, w1))
          else
            let w2 = snd (clearStoredCredentials env w1);
                w3 = w2\<lparr>wifi_event_group := wifi_event_group w2 AND NOT PROVISIONING_DONE\<rparr>;
                w4 = emit Prov_mgr_init w3
            in if rc env WIFI_PROV_MGR_INIT \<noteq> ESP_OK then Some (Inl (Aborted WIFI_PROV_MGR_INIT))
               else if rc env REGISTER_WIFI_PROV_EVENT \<noteq> ESP_OK
                 then Some (Inl (Aborted REGISTER_WIFI_PROV_EVENT))
               else if rc env WIFI_PROV_MGR_IS_PROVISIONED \<noteq> ESP_OK
                 then Some (Inl (Aborted WIFI_PROV_MGR_IS_PROVISIONED))
               else if \<not> provisioned env then
                 (let security_mode = (if security = 0 then WIFI_PROV_SECURITY_0
                                       else WIFI_PROV_SECURITY_1);
                      pop_str = (if security = 0 then None else Some (c_str pop));
                      w5 = emit (Prov_start_provisioning security_mode pop_str (c_str ap_ssid)) w4
                  in if rc env WIFI_PROV_MGR_START_PROVISIONING \<noteq> ESP_OK
                       then Some (Inl (Aborted WIFI_PROV_MGR_START_PROVISIONING))
                     else Some (Inr (True, (updateState PROVISIONING w5)
                                             \<lparr>provisioning_active := True\<rparr>)))
               else connect n env (emit Prov_mgr_deinit w4))"

definition stopProvisioning :: "world \<Rightarrow> bool \<times> world" where
  "stopProvisioning w =
     (if \<not> provisioning_active w then (True, w)
      else
        let w1 = emit Prov_stop_provisioning w;
            w2 = emit Prov_mgr_deinit w1;
            w3 = w2\<lparr>provisioning_active := False\<rparr>
        in (True, updateState DISCONNECTED w3))"

subsection \<open>Event handlers\<close>

definition eventHandler :: "esp_event \<Rightarrow> world \<Rightarrow> world" where
  "eventHandler ev w =
     (case ev of
        WIFI_EVENT event_id \<Rightarrow>
          if event_id = WIFI_EVENT_STA_START then w
          else if event_id = WIFI_EVENT_STA_DISCONNECTED then
            (if state w = CONNECTED \<or> state w = CONNECTING then
               updateState CONNECTING (emit Radio_connect w)
             else
               (let w1 = updateState DISCONNECTED w
                in w1\<lparr>wifi_event_group := wifi_event_group w1 OR WIFI_FAIL_BIT\<rparr>))
          else w
      | IP_EVENT event_id \<Rightarrow>
          if event_id = IP_EVENT_STA_GOT_IP then
            (let w1 = updateState CONNECTED w
             in w1\<lparr>wifi_event_group := wifi_event_group w1 OR WIFI_CONNECTED_BIT\<rparr>)
          else w
      | _ \<Rightarrow> w)"

definition provisioningEventHandler :: "env \<Rightarrow> esp_event \<Rightarrow> world \<Rightarrow> error + world" where
  "provisioningEventHandler env ev w =
     (case ev of
        WIFI_PROV_EVENT event_id \<Rightarrow>
          (case event_id of
             WIFI_PROV_START \<Rightarrow> Inr w
           | WIFI_PROV_CRED_RECV wifi_sta_cfg \<Rightarrow>
               Inr (snd (saveCredentials env (ssid_read wifi_sta_cfg)
                           (password_read wifi_sta_cfg) w))
           | WIFI_PROV_CRED_FAIL \<Rightarrow> Inr w
           | WIFI_PROV_CRED_SUCCESS \<Rightarrow> Inr w
           | WIFI_PROV_END \<Rightarrow>
               (let w1 = emit Prov_mgr_deinit w;
                    w2 = w1\<lparr>provisioning_active := False\<rparr>;
                    w3 = w2\<lparr>wifi_event_group := wifi_event_group w2 OR PROVISIONING_DONE\<rparr>
                in case loadCredentials env w3 of
                     Some (ssid, password) \<Rightarrow>
                       (case connect_with env ssid password False w3 of
                          Inl e \<Rightarrow> Inl e
                        | Inr (_, w4) \<Rightarrow> Inr w4)
                   | None \<Rightarrow> Inr (updateState ERROR w3))
           | WIFI_PROV_OTHER \<Rightarrow> Inr w)
      | _ \<Rightarrow> Inr w)"

subsection \<open>Sequences of calls and events\<close>

text \<open>
  What the application and the event loop can do to the manager (the member functions
  that only read, \<open>getState\<close>, \<open>getSSID\<close>, \<open>getIPAddress\<close> and
  \<open>hasStoredCredentials\<close>, change nothing and are left out). The event loop hands
  the events of the provisioning manager to \<open>provisioningEventHandler\<close> and the others
  to \<open>eventHandler\<close>, as the two registrations in the source say; the boolean result of a
  call is dropped, and an abort or the exhaustion of the nesting bound ends the sequence.
\<close>

datatype call =
  Init
  | Connect
  | ConnectWith string string bool
  | Disconnect
  | StartProvisioning string string "8 word" string
  | StopProvisioning
  | SetConnectionCallback bool
  | ClearStoredCredentials
  | Event esp_event

definition dropping_result :: "error + bool \<times> world \<Rightarrow> error + world" where
  "dropping_result r = (case r of Inl e \<Rightarrow> Inl e | Inr (_, w) \<Rightarrow> Inr w)"

definition step :: "nat \<Rightarrow> env \<Rightarrow> call \<Rightarrow> world \<Rightarrow> (error + world) option" where
  "step n env c w =
     (case c of
        Init \<Rightarrow> Some (dropping_result (init env w))
      | Connect \<Rightarrow> map_option dropping_result (connect n env w)
      | ConnectWith ssid password save \<Rightarrow>
          Some (dropping_result (connect_with env ssid password save w))
      | Disconnect \<Rightarrow> Some (Inr (snd (disconnect env w)))
      | StartProvisioning ap_ssid ap_password security pop \<Rightarrow>
          map_option dropping_result (startProvisioning n env ap_ssid ap_password security pop w)
      | StopProvisioning \<Rightarrow> Some (Inr (snd (stopProvisioning w)))
      | SetConnectionCallback callback \<Rightarrow> Some (Inr (setConnectionCallback callback w))
      | ClearStoredCredentials \<Rightarrow> Some (Inr (snd (clearStoredCredentials env w)))
      | Event ev \<Rightarrow>
          (case ev of
             WIFI_PROV_EVENT _ \<Rightarrow> Some (provisioningEventHandler env ev w)
           | _ \<Rightarrow> Some (Inr (eventHandler ev w))))"

fun run :: "nat \<Rightarrow> (env \<times> call) list \<Rightarrow> world \<Rightarrow> (error + world) option" where
  "run n [] w = Some (Inr w)"
| "run n ((env, c) # cs) w =
     (case step n env c w of
        None \<Rightarrow> None
      | Some (Inl e) \<Rightarrow> Some (Inl e)
      | Some (Inr w') \<Rightarrow> run n cs w')"

text \<open>The states the observer was called with, in order.\<close>

fun callbacks :: "effect list \<Rightarrow> WiFiState list" where
  "callbacks [] = []"
| "callbacks (Callback s # es) = s # callbacks es"
| "callbacks (_ # es) = callbacks es"

text \<open>
  With an observer registered, the states notified so far, after the state \<open>s0\<close> the
  manager had when nothing was notified yet, never repeat a state twice in a row and end
  with the current state.
\<close>

definition notified_ok :: "WiFiState \<Rightarrow> world \<Rightarrow> bool" where
  "notified_ok s0 w \<longleftrightarrow>
     connection_callback w \<and> distinct_adj (s0 # callbacks (trace w))
     \<and> last (s0 # callbacks (trace w)) = state w"

text \<open>
  Between the world \<open>w\<close> and the later world \<open>w'\<close> requests were only added, and no
  radio connect among them.
\<close>

definition no_radio_connect_since :: "world \<Rightarrow> world \<Rightarrow> bool" where
  "no_radio_connect_since w w' \<longleftrightarrow>
     take (length (trace w)) (trace w') = trace w
     \<and> Radio_connect \<notin> set (drop (length (trace w)) (trace w'))"

definition prov_started :: "effect \<Rightarrow> bool" where
  "prov_started e = (case e of Prov_start_provisioning _ _ _ \<Rightarrow> True | _ \<Rightarrow> False)"

subsection \<open>Environments in which the libraries serve the calls\<close>

definition nvs_ok :: "env \<Rightarrow> bool" where
  "nvs_ok env \<longleftrightarrow> list_all (\<lambda>c. rc env c = ESP_OK)
     [NVS_OPEN NVS_READONLY, NVS_OPEN NVS_READWRITE,
      NVS_SET_STR NVS_KEY_SSID, NVS_SET_STR NVS_KEY_PASSWORD,
      NVS_ERASE_KEY NVS_KEY_SSID, NVS_ERASE_KEY NVS_KEY_PASSWORD,
      NVS_GET_STR_SIZE NVS_KEY_SSID, NVS_GET_STR NVS_KEY_SSID,
      NVS_GET_STR_SIZE NVS_KEY_PASSWORD, NVS_GET_STR NVS_KEY_PASSWORD, NVS_COMMIT]"

definition erase_ok :: "env \<Rightarrow> bool" where
  "erase_ok env \<longleftrightarrow> list_all (\<lambda>c. rc env c = ESP_OK)
     [NVS_OPEN NVS_READWRITE, NVS_ERASE_KEY NVS_KEY_SSID, NVS_ERASE_KEY NVS_KEY_PASSWORD,
      NVS_COMMIT]"

definition init_ok :: "env \<Rightarrow> bool" where
  "init_ok env \<longleftrightarrow>
     list_all (\<lambda>c. rc env c = ESP_OK)
       [NVS_FLASH_INIT, ESP_NETIF_INIT, ESP_EVENT_LOOP_CREATE_DEFAULT, ESP_WIFI_INIT,
        REGISTER_WIFI_EVENT, REGISTER_IP_EVENT, ESP_WIFI_SET_MODE, ESP_WIFI_START]
     \<and> xEventGroupCreate_ok env \<and> netif_sta_ok env \<and> netif_ap_ok env"

definition prov_ok :: "env \<Rightarrow> bool" where
  "prov_ok env \<longleftrightarrow> list_all (\<lambda>c. rc env c = ESP_OK)
     [WIFI_PROV_MGR_INIT, REGISTER_WIFI_PROV_EVENT, WIFI_PROV_MGR_IS_PROVISIONED,
      WIFI_PROV_MGR_START_PROVISIONING]"

subsection \<open>Example environments and managers\<close>

definition env_all_ok :: env where
  "env_all_ok =
     \<lparr>rc = (\<lambda>_. ESP_OK), xEventGroupCreate_ok = True, netif_sta_ok = True,
      netif_ap_ok = True, mac = (\<lambda>_. 0)(3 := 0xAB, 4 := 0xCD, 5 := 0xEF),
      provisioned = False\<rparr>"

definition env_storage_down :: env where
  "env_storage_down = env_all_ok\<lparr>rc := (\<lambda>_. ESP_OK)(NVS_OPEN NVS_READWRITE := ESP_FAIL)\<rparr>"

definition w_ready :: world where
  "w_ready =
     \<lparr>nvs_namespace = ''wifi'', state = DISCONNECTED, connection_callback = True,
      wifi_event_group = 0, initialized = True, provisioning_active = False,
      current_ssid = [], current_password = [], nvs = Map.empty, trace = []\<rparr>"

text \<open>The manager as its constructor leaves it, over an empty storage.\<close>

definition w_fresh :: world where
  "w_fresh = w_ready\<lparr>initialized := False\<rparr>"

definition w_stored :: world where
  "w_stored =
     w_ready\<lparr>nvs := [(''wifi'', ''wifi_ssid'') \<mapsto> ''home'',
                      (''wifi'', ''wifi_pass'') \<mapsto> ''secret'']\<rparr>"

definition w_half :: world where
  "w_half = w_ready\<lparr>nvs := [(''wifi'', ''wifi_ssid'') \<mapsto> ''home'']\<rparr>"

text \<open>
  A provisioning session is started and \<open>disconnect()\<close> is called: the state is
  Disconnected and the session is still flagged active.
\<close>

definition session_left_run :: "(env \<times> call) list" where
  "session_left_run =
     [(env_all_ok, StartProvisioning ''setup'' [] 1 ''abcd1234''), (env_all_ok, Disconnect)]"

definition w_session_left :: world where
  "w_session_left =
     w_ready\<lparr>provisioning_active := True,
       trace := [Prov_mgr_init,
                 Prov_start_provisioning WIFI_PROV_SECURITY_1 (Some ''abcd1234'') ''setup'',
                 Callback PROVISIONING, Radio_disconnect, Callback DISCONNECTED]\<rparr>"

definition example_run :: "(env \<times> call) list" where
  "example_run =
     [(env_all_ok, ConnectWith ''home'' ''secret'' False),
      (env_all_ok, Event (WIFI_EVENT WIFI_EVENT_STA_DISCONNECTED)),
      (env_all_ok, Event (WIFI_EVENT WIFI_EVENT_STA_DISCONNECTED)),
      (env_all_ok, Event (IP_EVENT IP_EVENT_STA_GOT_IP)),
      (env_all_ok, Disconnect)]"

definition w_after_example_run :: world where
  "w_after_example_run =
     w_ready\<lparr>state := DISCONNECTED, wifi_event_group := 1,
       current_ssid := ''home'', current_password := ''secret'',
       trace := [Radio_set_config ''home'' ''secret'', Radio_connect, Callback CONNECTING,
                 Radio_connect, Radio_connect, Callback CONNECTED,
                 Radio_disconnect, Callback DISCONNECTED]\<rparr>"

section \<open>Properties\<close>

declare connect.simps [simp del] startProvisioning.simps [simp del]

subsection \<open>C strings and the storage\<close>

lemma c_str_idem: "c_str (c_str s) = c_str s"
  by (simp add: c_str_def)

lemma c_str_id: "CHR 0x00 \<notin> set s \<Longrightarrow> c_str s = s"
  by (auto simp: c_str_def)

lemma c_array_short: "length s < n \<Longrightarrow> c_array n s = s @ replicate (n - length s) (CHR 0x00)"
  by (simp add: c_array_def)

lemma c_str_until_NUL: "CHR 0x00 \<notin> set s \<Longrightarrow> c_str (s @ CHR 0x00 # t) = s"
  by (auto simp: c_str_def takeWhile_tail)

lemma c_str_array_short:
  assumes "length s < n" "CHR 0x00 \<notin> set s"
  shows "c_str (c_array n s @ t) = s"
proof -
  obtain k where k: "n - length s = Suc k" using assms(1) by (cases "n - length s") simp_all
  show ?thesis using c_str_until_NUL[OF assms(2)] by (simp add: c_array_short[OF assms(1)] k)
qed

text \<open>
  A terminated SSID and a terminated password are read as they are; an SSID that fills
  its 32 bytes is read together with the password behind it.
\<close>

lemma ssid_read_short:
  "length (sta_ssid cfg) < 32 \<Longrightarrow> CHR 0x00 \<notin> set (sta_ssid cfg)
     \<Longrightarrow> ssid_read cfg = sta_ssid cfg"
  by (simp add: ssid_read_def c_str_array_short)

lemma password_read_short:
  "length (sta_password cfg) < 64 \<Longrightarrow> CHR 0x00 \<notin> set (sta_password cfg)
     \<Longrightarrow> password_read cfg = sta_password cfg"
  by (simp add: password_read_def c_str_array_short)

lemma ssid_read_full:
  "ssid_read \<lparr>sta_ssid = replicate 32 (CHR ''a''), sta_password = ''pw'', sta_following = []\<rparr>
     = replicate 32 (CHR ''a'') @ ''pw''"
  by code_simp

lemma hex_digit_not_NUL: "hex_digit d \<noteq> CHR 0x00"
proof -
  have "hex_digit d \<in> set ''0123456789ABCDEF''"
    unfolding hex_digit_def by (rule nth_mem) simp
  then show ?thesis by auto
qed

lemma ap_name_c_str: "c_str (ap_name env) = ap_name env"
  by (rule c_str_id) (simp add: ap_name_def hex02X_def hex_digit_not_NUL[symmetric])

lemma ap_name_example: "ap_name env_all_ok = ''zubIOT_ABCDEF''"
  by (simp add: ap_name_def env_all_ok_def hex02X_def hex_digit_def)

lemma NVS_keys_differ: "NVS_KEY_SSID \<noteq> NVS_KEY_PASSWORD"
  by (simp add: NVS_KEY_SSID_def NVS_KEY_PASSWORD_def)

lemma load_after_save:
  "nvs_ok env \<Longrightarrow>
     fst (saveCredentials env ssid password w)
     \<and> loadCredentials env (snd (saveCredentials env ssid password w))
         = Some (c_str ssid, c_str password)"
  using NVS_keys_differ
  by (simp add: nvs_ok_def saveCredentials_def loadCredentials_def nvs_set_str_def
        nvs_get_str_def nvs_get_str_size_def c_str_idem)

lemma load_after_clear:
  "erase_ok env \<Longrightarrow> loadCredentials env (snd (clearStoredCredentials env w)) = None"
  by (simp add: erase_ok_def clearStoredCredentials_def loadCredentials_def nvs_erase_key_def
        nvs_get_str_def nvs_get_str_size_def)

lemma clear_succeeds: "erase_ok env \<Longrightarrow> fst (clearStoredCredentials env w)"
  by (simp add: erase_ok_def clearStoredCredentials_def nvs_erase_key_def)

lemma nvs_ok_erase_ok: "nvs_ok env \<Longrightarrow> erase_ok env"
  by (simp add: nvs_ok_def erase_ok_def)

lemma load_cong:
  "nvs w' = nvs w \<Longrightarrow> nvs_namespace w' = nvs_namespace w
     \<Longrightarrow> loadCredentials env w' = loadCredentials env w"
  by (simp add: loadCredentials_def nvs_get_str_def nvs_get_str_size_def cong: sum.case_cong)

lemma load_upd:
  "loadCredentials env (w\<lparr>trace := t\<rparr>) = loadCredentials env w"
  "loadCredentials env (w\<lparr>state := s\<rparr>) = loadCredentials env w"
  "loadCredentials env (w\<lparr>provisioning_active := b\<rparr>) = loadCredentials env w"
  "loadCredentials env (w\<lparr>wifi_event_group := g\<rparr>) = loadCredentials env w"
  by (rule load_cong; simp)+

lemma load_emit: "loadCredentials env (emit e w) = loadCredentials env w"
  by (simp add: emit_def load_upd)

lemma load_c_str: "loadCredentials env w = Some (s, p) \<Longrightarrow> c_str s = s \<and> c_str p = p"
  by (auto simp: loadCredentials_def c_str_idem split: if_splits sum.splits)

lemma clear_fields:
  "state (snd (clearStoredCredentials env w)) = state w"
  "trace (snd (clearStoredCredentials env w)) = trace w"
  "connection_callback (snd (clearStoredCredentials env w)) = connection_callback w"
  "initialized (snd (clearStoredCredentials env w)) = initialized w"
  "provisioning_active (snd (clearStoredCredentials env w)) = provisioning_active w"
  "nvs_namespace (snd (clearStoredCredentials env w)) = nvs_namespace w"
  by (simp_all add: clearStoredCredentials_def nvs_erase_key_def)

lemma w_stored_load: "loadCredentials env_all_ok w_stored = Some (''home'', ''secret'')"
  by (simp add: loadCredentials_def nvs_get_str_size_def nvs_get_str_def w_stored_def
        w_ready_def env_all_ok_def NVS_KEY_SSID_def NVS_KEY_PASSWORD_def c_str_def)

lemma w_ready_load: "loadCredentials env w_ready = None"
  by (simp add: loadCredentials_def nvs_get_str_size_def w_ready_def)

lemma env_all_ok_serves:
  "nvs_ok env_all_ok" "erase_ok env_all_ok" "prov_ok env_all_ok" "init_ok env_all_ok"
  by (simp_all add: nvs_ok_def erase_ok_def prov_ok_def init_ok_def env_all_ok_def)

subsection \<open>The credential store\<close>

text \<open>
  C5 (amended). When the storage serves every call: \<open>saveCredentials\<close> succeeds and
  \<open>loadCredentials\<close> then returns the saved identifier and secret, each cut at its first
  NUL byte (the strings reach the storage through \<open>c_str()\<close>), hence exactly the saved
  pair whenever neither string contains a NUL byte; \<open>clearStoredCredentials\<close> succeeds
  and \<open>loadCredentials\<close> then fails; and \<open>saveCredentials\<close> after a clear succeeds and
  the pair is what \<open>loadCredentials\<close> returns next, in the same way.
\<close>

theorem credentials_round_trip:
  assumes "nvs_ok env"
  shows "fst (saveCredentials env ssid password w)
       \<and> loadCredentials env (snd (saveCredentials env ssid password w))
           = Some (c_str ssid, c_str password)
       \<and> fst (clearStoredCredentials env w)
       \<and> loadCredentials env (snd (clearStoredCredentials env w)) = None
       \<and> fst (saveCredentials env ssid password (snd (clearStoredCredentials env w)))
       \<and> loadCredentials env
            (snd (saveCredentials env ssid password (snd (clearStoredCredentials env w))))
           = Some (c_str ssid, c_str password)
       \<and> (CHR 0x00 \<notin> set ssid \<and> CHR 0x00 \<notin> set password \<longrightarrow>
            (c_str ssid, c_str password) = (ssid, password))"
  using load_after_save[OF assms, of ssid password w]
    load_after_save[OF assms, of ssid password "snd (clearStoredCredentials env w)"]
    load_after_clear[OF nvs_ok_erase_ok[OF assms], of w]
    clear_succeeds[OF nvs_ok_erase_ok[OF assms], of w]
    c_str_id[of ssid] c_str_id[of password]
  by simp

theorem credentials_round_trip_witness:
  "nvs_ok env_all_ok \<and> CHR 0x00 \<notin> set ''home'' \<and> CHR 0x00 \<notin> set ''secret''
   \<and> loadCredentials env_all_ok (snd (saveCredentials env_all_ok ''home'' ''secret'' w_ready))
       = Some (''home'', ''secret'')
   \<and> loadCredentials env_all_ok (snd (clearStoredCredentials env_all_ok w_stored)) = None
   \<and> loadCredentials env_all_ok
        (snd (saveCredentials env_all_ok ''home'' ''secret''
               (snd (clearStoredCredentials env_all_ok w_stored))))
       = Some (''home'', ''secret'')"
proof -
  have h: "nvs_ok env_all_ok" by (rule env_all_ok_serves)
  have n: "CHR 0x00 \<notin> set ''home''" "CHR 0x00 \<notin> set ''secret''" by simp_all
  from credentials_round_trip[OF h, of "''home''" "''secret''" w_ready]
    credentials_round_trip[OF h, of "''home''" "''secret''" w_stored] h n
  show ?thesis by simp
qed

text \<open>
  Saving the three bytes \<open>a\<close>, NUL, \<open>b\<close> as the identifier and loading again returns the
  identifier \<open>a\<close>, not the saved one.
\<close>

theorem round_trip_cuts_at_NUL:
  "nvs_ok env_all_ok
   \<and> loadCredentials env_all_ok
        (snd (saveCredentials env_all_ok [CHR ''a'', CHR 0x00, CHR ''b''] ''secret'' w_ready))
       = Some (''a'', ''secret'')
   \<and> ''a'' \<noteq> [CHR ''a'', CHR 0x00, CHR ''b'']"
proof (intro conjI)
  show "nvs_ok env_all_ok" by (rule env_all_ok_serves)
  show "loadCredentials env_all_ok
          (snd (saveCredentials env_all_ok [CHR ''a'', CHR 0x00, CHR ''b''] ''secret'' w_ready))
        = Some (''a'', ''secret'')"
    by (simp add: saveCredentials_def loadCredentials_def nvs_set_str_def
          nvs_get_str_def nvs_get_str_size_def c_str_def env_all_ok_def w_ready_def
          NVS_KEY_SSID_def NVS_KEY_PASSWORD_def)
  show "''a'' \<noteq> [CHR ''a'', CHR 0x00, CHR ''b'']" by simp
qed

text \<open>
  C6. Whatever the storage answers, when the key of the identifier or the key of the
  secret is absent from the namespace, \<open>loadCredentials\<close> fails, and so
  \<open>hasStoredCredentials\<close> is false: it is true only when both halves are present.
\<close>

theorem loadCredentials_needs_both_halves:
  "nvs w (nvs_namespace w, NVS_KEY_SSID) = None
     \<or> nvs w (nvs_namespace w, NVS_KEY_PASSWORD) = None
   \<Longrightarrow> loadCredentials env w = None \<and> \<not> hasStoredCredentials env w"
  by (auto simp: loadCredentials_def hasStoredCredentials_def nvs_get_str_size_def
        nvs_get_str_def split: sum.splits option.splits)

theorem loadCredentials_needs_both_halves_witness:
  "nvs w_half (nvs_namespace w_half, NVS_KEY_SSID) = Some ''home''
   \<and> nvs w_half (nvs_namespace w_half, NVS_KEY_PASSWORD) = None
   \<and> loadCredentials env_all_ok w_half = None \<and> \<not> hasStoredCredentials env_all_ok w_half"
proof -
  have h: "nvs w_half (nvs_namespace w_half, NVS_KEY_PASSWORD) = None"
    by (simp add: w_half_def w_ready_def NVS_KEY_PASSWORD_def)
  have "nvs w_half (nvs_namespace w_half, NVS_KEY_SSID) = Some ''home''"
    by (simp add: w_half_def w_ready_def NVS_KEY_SSID_def)
  with h loadCredentials_needs_both_halves[OF disjI2, OF h, of env_all_ok]
  show ?thesis by simp
qed

text \<open>
  What \<open>saveCredentials\<close> and \<open>connect(ssid, password, save)\<close> do when the storage fails.
\<close>

lemma save_result:
  "fst (saveCredentials env ssid password w) \<longleftrightarrow>
     rc env (NVS_OPEN NVS_READWRITE) = ESP_OK \<and> rc env (NVS_SET_STR NVS_KEY_SSID) = ESP_OK
     \<and> rc env (NVS_SET_STR NVS_KEY_PASSWORD) = ESP_OK \<and> rc env NVS_COMMIT = ESP_OK"
  by (simp add: saveCredentials_def nvs_set_str_def)

lemma save_changes_storage_only:
  "snd (saveCredentials env ssid password w)
     = w\<lparr>nvs := nvs (snd (saveCredentials env ssid password w))\<rparr>"
  by (simp add: saveCredentials_def nvs_set_str_def)

lemma save_open_fails:
  "rc env (NVS_OPEN NVS_READWRITE) \<noteq> ESP_OK \<Longrightarrow> saveCredentials env ssid password w = (False, w)"
  by (simp add: saveCredentials_def)

lemma save_trace: "trace (snd (saveCredentials env a b w)) = trace w"
  by (simp add: saveCredentials_def nvs_set_str_def)

lemma connect_with_connecting:
  "initialized w \<Longrightarrow> rc env ESP_WIFI_SET_CONFIG = ESP_OK \<Longrightarrow> rc env ESP_WIFI_CONNECT = ESP_OK \<Longrightarrow>
   \<exists>w' t. connect_with env ssid password save w = Inr (True, w') \<and> state w' = CONNECTING
        \<and> current_ssid w' = ssid \<and> current_password w' = password
        \<and> Radio_connect \<in> set (trace w')
        \<and> trace w' = trace w @ t \<and> Radio_connect \<in> set t"
  by (simp add: connect_with_def ensure_initialized_def Let_def updateState_def emit_def
        disconnect_def save_trace)

lemma connect_with_trace:
  "initialized w \<Longrightarrow> rc env ESP_WIFI_SET_CONFIG = ESP_OK \<Longrightarrow> rc env ESP_WIFI_CONNECT = ESP_OK \<Longrightarrow>
   \<exists>w' t. connect_with env ssid password False w = Inr (True, w') \<and> state w' = CONNECTING
      \<and> current_ssid w' = ssid \<and> current_password w' = password
      \<and> provisioning_active w' = provisioning_active w
      \<and> trace w' = trace w @ t
      \<and> Radio_set_config (take 31 (c_str ssid)) (take 63 (c_str password)) \<in> set t
      \<and> Radio_connect \<in> set t \<and> \<not> list_ex prov_started t"
  by (simp add: connect_with_def ensure_initialized_def Let_def updateState_def emit_def
        disconnect_def prov_started_def)

text \<open>
  C9 (amended). \<open>saveCredentials\<close> returns failure exactly when one of its storage calls
  fails; it changes nothing but the storage, and nothing at all when the storage cannot be
  opened. \<open>connect(ssid, password, save = true)\<close> drops the result of the save: on an
  initialised manager whose radio calls succeed it sends the radio connect, returns
  success and the state becomes Connecting, whether the save failed or not.
\<close>

theorem save_failure_not_propagated_by_connect:
  "(fst (saveCredentials env ssid password w) \<longleftrightarrow>
      rc env (NVS_OPEN NVS_READWRITE) = ESP_OK \<and> rc env (NVS_SET_STR NVS_KEY_SSID) = ESP_OK
      \<and> rc env (NVS_SET_STR NVS_KEY_PASSWORD) = ESP_OK \<and> rc env NVS_COMMIT = ESP_OK)
   \<and> snd (saveCredentials env ssid password w)
       = w\<lparr>nvs := nvs (snd (saveCredentials env ssid password w))\<rparr>
   \<and> (rc env (NVS_OPEN NVS_READWRITE) \<noteq> ESP_OK \<longrightarrow>
        saveCredentials env ssid password w = (False, w))
   \<and> (initialized w \<and> rc env ESP_WIFI_SET_CONFIG = ESP_OK \<and> rc env ESP_WIFI_CONNECT = ESP_OK \<longrightarrow>
        (\<exists>w' t. connect_with env ssid password True w = Inr (True, w') \<and> state w' = CONNECTING
           \<and> Radio_connect \<in> set (trace w')
           \<and> trace w' = trace w @ t \<and> Radio_connect \<in> set t))"
proof (intro conjI impI)
  show "fst (saveCredentials env ssid password w) \<longleftrightarrow>
      rc env (NVS_OPEN NVS_READWRITE) = ESP_OK \<and> rc env (NVS_SET_STR NVS_KEY_SSID) = ESP_OK
      \<and> rc env (NVS_SET_STR NVS_KEY_PASSWORD) = ESP_OK \<and> rc env NVS_COMMIT = ESP_OK"
    by (rule save_result)
  show "snd (saveCredentials env ssid password w)
       = w\<lparr>nvs := nvs (snd (saveCredentials env ssid password w))\<rparr>"
    by (rule save_changes_storage_only)
  show "saveCredentials env ssid password w = (False, w)"
    if "rc env (NVS_OPEN NVS_READWRITE) \<noteq> ESP_OK"
    using that by (rule save_open_fails)
  show "\<exists>w' t. connect_with env ssid password True w = Inr (True, w') \<and> state w' = CONNECTING
           \<and> Radio_connect \<in> set (trace w')
           \<and> trace w' = trace w @ t \<and> Radio_connect \<in> set t"
    if "initialized w \<and> rc env ESP_WIFI_SET_CONFIG = ESP_OK \<and> rc env ESP_WIFI_CONNECT = ESP_OK"
    using that connect_with_connecting[of w env ssid password True] by blast
qed

theorem save_failure_not_propagated_by_connect_witness:
  "rc env_storage_down (NVS_OPEN NVS_READWRITE) \<noteq> ESP_OK
   \<and> initialized w_ready \<and> rc env_storage_down ESP_WIFI_SET_CONFIG = ESP_OK
   \<and> rc env_storage_down ESP_WIFI_CONNECT = ESP_OK
   \<and> saveCredentials env_storage_down ''home'' ''secret'' w_ready = (False, w_ready)
   \<and> (\<exists>w'. connect_with env_storage_down ''home'' ''secret'' True w_ready = Inr (True, w')
          \<and> state w' = CONNECTING)"
proof -
  have h: "rc env_storage_down (NVS_OPEN NVS_READWRITE) \<noteq> ESP_OK"
    "initialized w_ready" "rc env_storage_down ESP_WIFI_SET_CONFIG = ESP_OK"
    "rc env_storage_down ESP_WIFI_CONNECT = ESP_OK"
    by (simp_all add: env_storage_down_def env_all_ok_def w_ready_def)
  with save_failure_not_propagated_by_connect[of env_storage_down "''home''" "''secret''" w_ready]
  show ?thesis by blast
qed

text \<open>
  With the storage failing to open, the save inside \<open>connect(''home'', ''secret'', true)\<close>
  fails, and the call returns true with the state Connecting.
\<close>

theorem connect_with_succeeds_when_save_fails:
  "fst (saveCredentials env_storage_down ''home'' ''secret'' w_ready) = False
   \<and> connect_with env_storage_down ''home'' ''secret'' True w_ready
       = Inr (True, w_ready\<lparr>state := CONNECTING, current_ssid := ''home'',
                current_password := ''secret'',
                trace := [Radio_set_config ''home'' ''secret'', Radio_connect,
                          Callback CONNECTING]\<rparr>)"
  by (simp add: connect_with_def ensure_initialized_def Let_def updateState_def emit_def
        saveCredentials_def env_storage_down_def env_all_ok_def w_ready_def c_str_def
        WIFI_CONNECTED_BIT_def WIFI_FAIL_BIT_def)

subsection \<open>Events and the state\<close>

text \<open>
  C3 (amended). A link-down event received while the state is Connected or Connecting
  re-issues a radio connect and leaves the state Connecting, without touching the failure
  bit. In every other state (Disconnected, and also Provisioning and Error) it issues no
  radio connect, sets the state to Disconnected and raises the failure bit.
\<close>

theorem link_down_retry_or_fail:
  "(state w = CONNECTED \<or> state w = CONNECTING \<longrightarrow>
      state (eventHandler (WIFI_EVENT WIFI_EVENT_STA_DISCONNECTED) w) = CONNECTING
    \<and> trace (eventHandler (WIFI_EVENT WIFI_EVENT_STA_DISCONNECTED) w)
        = trace w @ [Radio_connect]
            @ (if state w = CONNECTED \<and> connection_callback w then [Callback CONNECTING] else [])
    \<and> wifi_event_group (eventHandler (WIFI_EVENT WIFI_EVENT_STA_DISCONNECTED) w)
        = wifi_event_group w)
   \<and> (state w \<noteq> CONNECTED \<and> state w \<noteq> CONNECTING \<longrightarrow>
      state (eventHandler (WIFI_EVENT WIFI_EVENT_STA_DISCONNECTED) w) = DISCONNECTED
    \<and> trace (eventHandler (WIFI_EVENT WIFI_EVENT_STA_DISCONNECTED) w)
        = trace w
            @ (if state w \<noteq> DISCONNECTED \<and> connection_callback w then [Callback DISCONNECTED]
               else [])
    \<and> wifi_event_group (eventHandler (WIFI_EVENT WIFI_EVENT_STA_DISCONNECTED) w)
        = wifi_event_group w OR WIFI_FAIL_BIT)"
  by (auto simp: eventHandler_def updateState_def emit_def Let_def)

theorem link_down_retry_or_fail_witness:
  "state (w_ready\<lparr>state := CONNECTED\<rparr>) = CONNECTED
   \<and> state (eventHandler (WIFI_EVENT WIFI_EVENT_STA_DISCONNECTED) (w_ready\<lparr>state := CONNECTED\<rparr>))
       = CONNECTING
   \<and> trace (eventHandler (WIFI_EVENT WIFI_EVENT_STA_DISCONNECTED) (w_ready\<lparr>state := CONNECTED\<rparr>))
       = [Radio_connect, Callback CONNECTING]
   \<and> state w_ready \<noteq> CONNECTED \<and> state w_ready \<noteq> CONNECTING
   \<and> state (eventHandler (WIFI_EVENT WIFI_EVENT_STA_DISCONNECTED) w_ready) = DISCONNECTED
   \<and> wifi_event_group (eventHandler (WIFI_EVENT WIFI_EVENT_STA_DISCONNECTED) w_ready) = 2"
  using link_down_retry_or_fail[of "w_ready\<lparr>state := CONNECTED\<rparr>"]
    link_down_retry_or_fail[of w_ready]
  by (simp add: w_ready_def WIFI_FAIL_BIT_def)

text \<open>
  A link-down event received in the state Provisioning, with the failure bit clear,
  raises the failure bit.
\<close>

theorem link_down_while_provisioning_raises_fail:
  "state (w_ready\<lparr>state := PROVISIONING\<rparr>) \<noteq> DISCONNECTED
   \<and> wifi_event_group (w_ready\<lparr>state := PROVISIONING\<rparr>) AND WIFI_FAIL_BIT = 0
   \<and> wifi_event_group
        (eventHandler (WIFI_EVENT WIFI_EVENT_STA_DISCONNECTED) (w_ready\<lparr>state := PROVISIONING\<rparr>))
       AND WIFI_FAIL_BIT = WIFI_FAIL_BIT"
  by (simp add: eventHandler_def updateState_def emit_def Let_def w_ready_def WIFI_FAIL_BIT_def)

text \<open>
  C2 (amended). On an initialised manager whose radio accepts the request,
  \<open>disconnect()\<close> called while the state is Connecting returns true and the state is
  Disconnected at once. An IP-acquired event delivered afterwards is not ignored: the
  state becomes Connected and the connected bit is raised.
\<close>

theorem disconnect_then_got_ip_connects:
  assumes "initialized w" "state w = CONNECTING" "rc env ESP_WIFI_DISCONNECT = ESP_OK"
  shows "fst (disconnect env w) \<and> state (snd (disconnect env w)) = DISCONNECTED
       \<and> state (eventHandler (IP_EVENT IP_EVENT_STA_GOT_IP) (snd (disconnect env w))) = CONNECTED
       \<and> wifi_event_group (eventHandler (IP_EVENT IP_EVENT_STA_GOT_IP) (snd (disconnect env w)))
           = wifi_event_group w OR WIFI_CONNECTED_BIT"
  using assms by (simp add: disconnect_def eventHandler_def updateState_def emit_def Let_def)

theorem disconnect_then_got_ip_connects_witness:
  "initialized (w_ready\<lparr>state := CONNECTING\<rparr>) \<and> state (w_ready\<lparr>state := CONNECTING\<rparr>) = CONNECTING
   \<and> rc env_all_ok ESP_WIFI_DISCONNECT = ESP_OK
   \<and> state (snd (disconnect env_all_ok (w_ready\<lparr>state := CONNECTING\<rparr>))) = DISCONNECTED
   \<and> state (eventHandler (IP_EVENT IP_EVENT_STA_GOT_IP)
              (snd (disconnect env_all_ok (w_ready\<lparr>state := CONNECTING\<rparr>)))) = CONNECTED"
proof -
  have h: "initialized (w_ready\<lparr>state := CONNECTING\<rparr>)"
    "state (w_ready\<lparr>state := CONNECTING\<rparr>) = CONNECTING"
    "rc env_all_ok ESP_WIFI_DISCONNECT = ESP_OK"
    by (simp_all add: w_ready_def env_all_ok_def)
  from disconnect_then_got_ip_connects[OF h] h show ?thesis by simp
qed

text \<open>
  The manager is Connecting; \<open>disconnect()\<close> makes it Disconnected; the IP-acquired event
  of the abandoned attempt then makes it Connected.
\<close>

theorem stale_got_ip_not_ignored:
  "state (w_ready\<lparr>state := CONNECTING\<rparr>) = CONNECTING
   \<and> disconnect env_all_ok (w_ready\<lparr>state := CONNECTING\<rparr>)
       = (True, w_ready\<lparr>trace := [Radio_disconnect, Callback DISCONNECTED]\<rparr>)
   \<and> state (w_ready\<lparr>trace := [Radio_disconnect, Callback DISCONNECTED]\<rparr>) = DISCONNECTED
   \<and> state (eventHandler (IP_EVENT IP_EVENT_STA_GOT_IP)
              (w_ready\<lparr>trace := [Radio_disconnect, Callback DISCONNECTED]\<rparr>)) = CONNECTED"
  by (simp add: disconnect_def eventHandler_def updateState_def emit_def Let_def w_ready_def
        env_all_ok_def)

subsection \<open>Provisioning\<close>

text \<open>
  C10. \<open>stopProvisioning\<close> called when no provisioning session is active returns true
  and leaves the whole system as it was: the state, the stored credentials, the
  provisioning flag, and no request is sent.
\<close>

theorem stopProvisioning_inactive_noop:
  "\<not> provisioning_active w \<Longrightarrow> stopProvisioning w = (True, w)"
  by (simp add: stopProvisioning_def)

theorem stopProvisioning_inactive_noop_witness:
  "\<not> provisioning_active w_stored \<and> stopProvisioning w_stored = (True, w_stored)"
proof -
  have h: "\<not> provisioning_active w_stored" by (simp add: w_stored_def w_ready_def)
  from stopProvisioning_inactive_noop[OF h] h show ?thesis by simp
qed

lemma provisioning_end_with_credentials:
  assumes l: "loadCredentials env w = Some (ssid, password)" and i: "initialized w"
    and r: "rc env ESP_WIFI_SET_CONFIG = ESP_OK" "rc env ESP_WIFI_CONNECT = ESP_OK"
  shows "\<exists>w' t. provisioningEventHandler env (WIFI_PROV_EVENT WIFI_PROV_END) w = Inr w'
      \<and> state w' = CONNECTING \<and> current_ssid w' = ssid \<and> current_password w' = password
      \<and> \<not> provisioning_active w'
      \<and> trace w' = trace w @ Prov_mgr_deinit # t
      \<and> Radio_set_config (take 31 ssid) (take 63 password) \<in> set t
      \<and> Radio_connect \<in> set t \<and> \<not> list_ex prov_started t"
proof -
  let ?w3 = "(emit Prov_mgr_deinit w)\<lparr>provisioning_active := False,
               wifi_event_group := wifi_event_group w OR PROVISIONING_DONE\<rparr>"
  have l3: "loadCredentials env ?w3 = Some (ssid, password)"
    using l by (simp add: load_upd load_emit)
  have i3: "initialized ?w3" using i by (simp add: emit_def)
  from connect_with_trace[OF i3 r, of ssid password] obtain w' t where
    c: "connect_with env ssid password False ?w3 = Inr (True, w')" "state w' = CONNECTING"
      "current_ssid w' = ssid" "current_password w' = password"
      "provisioning_active w' = provisioning_active ?w3"
      "trace w' = trace ?w3 @ t"
      "Radio_set_config (take 31 (c_str ssid)) (take 63 (c_str password)) \<in> set t"
      "Radio_connect \<in> set t" "\<not> list_ex prov_started t"
    by blast
  have h: "provisioningEventHandler env (WIFI_PROV_EVENT WIFI_PROV_END) w = Inr w'"
    using l3 c(1) by (simp add: provisioningEventHandler_def Let_def emit_def)
  show ?thesis using h c load_c_str[OF l] by (simp add: emit_def)
qed

lemma provisioning_end_without_credentials:
  assumes l: "loadCredentials env w = None"
  shows "\<exists>w'. provisioningEventHandler env (WIFI_PROV_EVENT WIFI_PROV_END) w = Inr w'
      \<and> state w' = ERROR \<and> \<not> provisioning_active w'
      \<and> trace w' = trace w @ [Prov_mgr_deinit]
           @ (if state w \<noteq> ERROR \<and> connection_callback w then [Callback ERROR] else [])"
proof -
  let ?w3 = "(emit Prov_mgr_deinit w)\<lparr>provisioning_active := False,
               wifi_event_group := wifi_event_group w OR PROVISIONING_DONE\<rparr>"
  have l3: "loadCredentials env ?w3 = None"
    using l by (simp add: load_upd load_emit)
  then have "provisioningEventHandler env (WIFI_PROV_EVENT WIFI_PROV_END) w
               = Inr (updateState ERROR ?w3)"
    by (simp add: provisioningEventHandler_def Let_def emit_def)
  then show ?thesis by (simp add: updateState_def emit_def)
qed

text \<open>
  C8. When the provisioning-ended event is handled on an initialised manager whose radio
  calls succeed, and the stored credentials load, the handler sends the radio the
  station configuration made of them and a connect request, the state becomes
  Connecting and the session is over; no provisioning is started. When the load fails,
  the state becomes Error, the session is over, and the handler sends nothing but the
  release of the provisioning manager and the notification of the observer: it does not
  start provisioning again.
\<close>

theorem provisioning_end_connects_or_errors:
  "(loadCredentials env w = Some (ssid, password) \<and> initialized w
      \<and> rc env ESP_WIFI_SET_CONFIG = ESP_OK \<and> rc env ESP_WIFI_CONNECT = ESP_OK \<longrightarrow>
      (\<exists>w' t. provisioningEventHandler env (WIFI_PROV_EVENT WIFI_PROV_END) w = Inr w'
         \<and> state w' = CONNECTING \<and> current_ssid w' = ssid \<and> current_password w' = password
         \<and> \<not> provisioning_active w'
         \<and> trace w' = trace w @ Prov_mgr_deinit # t
         \<and> Radio_set_config (take 31 ssid) (take 63 password) \<in> set t
         \<and> Radio_connect \<in> set t \<and> \<not> list_ex prov_started t))
   \<and> (loadCredentials env w = None \<longrightarrow>
      (\<exists>w'. provisioningEventHandler env (WIFI_PROV_EVENT WIFI_PROV_END) w = Inr w'
         \<and> state w' = ERROR \<and> \<not> provisioning_active w'
         \<and> trace w' = trace w @ [Prov_mgr_deinit]
              @ (if state w \<noteq> ERROR \<and> connection_callback w then [Callback ERROR] else [])))"
  using provisioning_end_with_credentials[of env w ssid password]
    provisioning_end_without_credentials[of env w]
  by blast

theorem provisioning_end_connects_or_errors_witness:
  "loadCredentials env_all_ok (w_stored\<lparr>state := PROVISIONING\<rparr>) = Some (''home'', ''secret'')
   \<and> initialized (w_stored\<lparr>state := PROVISIONING\<rparr>)
   \<and> rc env_all_ok ESP_WIFI_SET_CONFIG = ESP_OK \<and> rc env_all_ok ESP_WIFI_CONNECT = ESP_OK
   \<and> (\<exists>w'. provisioningEventHandler env_all_ok (WIFI_PROV_EVENT WIFI_PROV_END)
              (w_stored\<lparr>state := PROVISIONING\<rparr>) = Inr w'
          \<and> state w' = CONNECTING \<and> current_ssid w' = ''home'')
   \<and> loadCredentials env_all_ok (w_ready\<lparr>state := PROVISIONING\<rparr>) = None
   \<and> (\<exists>w'. provisioningEventHandler env_all_ok (WIFI_PROV_EVENT WIFI_PROV_END)
              (w_ready\<lparr>state := PROVISIONING\<rparr>) = Inr w'
          \<and> state w' = ERROR \<and> trace w' = [Prov_mgr_deinit, Callback ERROR])"
proof -
  have a: "loadCredentials env_all_ok (w_stored\<lparr>state := PROVISIONING\<rparr>) = Some (''home'', ''secret'')"
    by (simp add: load_upd w_stored_load)
  have b: "initialized (w_stored\<lparr>state := PROVISIONING\<rparr>)"
    "rc env_all_ok ESP_WIFI_SET_CONFIG = ESP_OK" "rc env_all_ok ESP_WIFI_CONNECT = ESP_OK"
    by (simp_all add: w_stored_def w_ready_def env_all_ok_def)
  have c: "loadCredentials env_all_ok (w_ready\<lparr>state := PROVISIONING\<rparr>) = None"
    by (simp add: load_upd w_ready_load)
  have d: "state (w_ready\<lparr>state := PROVISIONING\<rparr>) \<noteq> ERROR"
    "connection_callback (w_ready\<lparr>state := PROVISIONING\<rparr>)"
    "trace (w_ready\<lparr>state := PROVISIONING\<rparr>) = []"
    by (simp_all add: w_ready_def)
  from provisioning_end_connects_or_errors
         [of env_all_ok "w_stored\<lparr>state := PROVISIONING\<rparr>" "''home''" "''secret''"] a b
  obtain w1 where w1: "provisioningEventHandler env_all_ok (WIFI_PROV_EVENT WIFI_PROV_END)
              (w_stored\<lparr>state := PROVISIONING\<rparr>) = Inr w1"
      "state w1 = CONNECTING" "current_ssid w1 = ''home''"
    by blast
  from provisioning_end_connects_or_errors
         [of env_all_ok "w_ready\<lparr>state := PROVISIONING\<rparr>" "''home''" "''secret''"] c d
  obtain w2 where w2: "provisioningEventHandler env_all_ok (WIFI_PROV_EVENT WIFI_PROV_END)
              (w_ready\<lparr>state := PROVISIONING\<rparr>) = Inr w2"
      "state w2 = ERROR" "trace w2 = [Prov_mgr_deinit, Callback ERROR]"
    by auto
  from a b c w1 w2 show ?thesis by blast
qed

lemma startProvisioning_unprovisioned:
  assumes "initialized w" "\<not> provisioning_active w" "prov_ok env" "\<not> provisioned env"
  shows "\<exists>w'. startProvisioning (Suc n) env ap_ssid ap_password security pop w
               = Some (Inr (True, w'))
      \<and> state w' = PROVISIONING \<and> provisioning_active w'
      \<and> nvs w' = nvs (snd (clearStoredCredentials env w)) \<and> nvs_namespace w' = nvs_namespace w
      \<and> trace w' = trace w
           @ [Prov_mgr_init,
              Prov_start_provisioning
                (if security = 0 then WIFI_PROV_SECURITY_0 else WIFI_PROV_SECURITY_1)
                (if security = 0 then None else Some (c_str pop)) (c_str ap_ssid)]
           @ (if state w \<noteq> PROVISIONING \<and> connection_callback w then [Callback PROVISIONING]
              else [])"
  using assms
  by (simp add: startProvisioning.simps ensure_initialized_def prov_ok_def Let_def
        updateState_def emit_def clear_fields)

text \<open>
  What a call of \<open>connect()\<close> that finds no credentials can send.
\<close>

lemma no_radio_iff:
  "no_radio_connect_since w w' \<longleftrightarrow> (\<exists>t. trace w' = trace w @ t \<and> Radio_connect \<notin> set t)"
proof
  assume q: "no_radio_connect_since w w'"
  have "trace w' = take (length (trace w)) (trace w') @ drop (length (trace w)) (trace w')"
    by simp
  with q show "\<exists>t. trace w' = trace w @ t \<and> Radio_connect \<notin> set t"
    unfolding no_radio_connect_since_def by metis
next
  assume "\<exists>t. trace w' = trace w @ t \<and> Radio_connect \<notin> set t"
  then show "no_radio_connect_since w w'" by (auto simp: no_radio_connect_since_def)
qed

lemma no_radio_refl [simp]: "no_radio_connect_since w w"
  by (simp add: no_radio_connect_since_def)

lemma no_radio_upd [simp]:
  "no_radio_connect_since w (w1\<lparr>nvs := m\<rparr>) = no_radio_connect_since w w1"
  "no_radio_connect_since w (w1\<lparr>wifi_event_group := g\<rparr>) = no_radio_connect_since w w1"
  "no_radio_connect_since w (w1\<lparr>initialized := b\<rparr>) = no_radio_connect_since w w1"
  "no_radio_connect_since w (w1\<lparr>provisioning_active := b\<rparr>) = no_radio_connect_since w w1"
  "no_radio_connect_since w (w1\<lparr>state := s\<rparr>) = no_radio_connect_since w w1"
  by (simp_all add: no_radio_connect_since_def)

lemma no_radio_emit [simp]:
  "e \<noteq> Radio_connect \<Longrightarrow> no_radio_connect_since w w1 \<Longrightarrow> no_radio_connect_since w (emit e w1)"
  by (auto simp: no_radio_iff emit_def)

lemma no_radio_updateState [simp]:
  "no_radio_connect_since w w1 \<Longrightarrow> no_radio_connect_since w (updateState s w1)"
  by (simp add: updateState_def Let_def)

lemma no_radio_clear [simp]:
  "no_radio_connect_since w (snd (clearStoredCredentials env w1)) = no_radio_connect_since w w1"
  by (simp add: clearStoredCredentials_def nvs_erase_key_def)

lemma no_radio_init:
  "no_radio_connect_since w w1 \<Longrightarrow> init env w1 = Inr (ok, w') \<Longrightarrow> no_radio_connect_since w w'"
  by (auto simp: init_def initNVS_def initWiFi_def Let_def split: if_splits)

lemma no_radio_ensure:
  "no_radio_connect_since w w1 \<Longrightarrow> ensure_initialized env w1 = Inr (ok, w')
     \<Longrightarrow> no_radio_connect_since w w'"
  by (auto simp: ensure_initialized_def no_radio_init split: if_splits)

lemma load_empty: "nvs w = Map.empty \<Longrightarrow> loadCredentials env w = None"
  by (simp add: loadCredentials_def nvs_get_str_size_def)

lemma load_upd_initialized:
  "loadCredentials env (w\<lparr>initialized := b\<rparr>) = loadCredentials env w"
  by (rule load_cong; simp)+

lemma load_updateState: "loadCredentials env (updateState s w) = loadCredentials env w"
  by (simp add: updateState_def emit_def load_upd Let_def)

lemma load_None_init:
  "loadCredentials env w = None \<Longrightarrow> init env w = Inr (ok, w') \<Longrightarrow> loadCredentials env w' = None"
  by (auto simp: init_def initNVS_def initWiFi_def Let_def load_upd load_upd_initialized load_updateState load_empty split: if_splits)

lemma load_None_ensure:
  "loadCredentials env w = None \<Longrightarrow> ensure_initialized env w = Inr (ok, w') \<Longrightarrow> loadCredentials env w' = None"
  by (auto simp: ensure_initialized_def load_None_init split: if_splits)

lemma load_None_clear:
  "loadCredentials env w = None \<Longrightarrow> loadCredentials env (snd (clearStoredCredentials env w)) = None"
  by (auto simp: loadCredentials_def clearStoredCredentials_def nvs_erase_key_def nvs_get_str_size_def nvs_get_str_def NVS_keys_differ
      split: if_splits option.splits sum.splits)

lemma no_radio_connect_startProvisioning:
  "(\<forall>w0 w ok w'. no_radio_connect_since w0 w \<longrightarrow> loadCredentials env w = None \<longrightarrow>
        connect n env w = Some (Inr (ok, w')) \<longrightarrow> no_radio_connect_since w0 w')
   \<and> (\<forall>w0 w a b c d ok w'. no_radio_connect_since w0 w \<longrightarrow> loadCredentials env w = None \<longrightarrow>
        startProvisioning n env a b c d w = Some (Inr (ok, w')) \<longrightarrow> no_radio_connect_since w0 w')"
proof (induction n)
  case 0
  show ?case by (simp add: connect.simps startProvisioning.simps)
next
  case (Suc n)
  then have IHc: "\<And>w0 w ok w'. no_radio_connect_since w0 w \<Longrightarrow> loadCredentials env w = None
                    \<Longrightarrow> connect n env w = Some (Inr (ok, w')) \<Longrightarrow> no_radio_connect_since w0 w'"
    and IHs: "\<And>w0 w a b c d ok w'. no_radio_connect_since w0 w \<Longrightarrow> loadCredentials env w = None
                \<Longrightarrow> startProvisioning n env a b c d w = Some (Inr (ok, w'))
                \<Longrightarrow> no_radio_connect_since w0 w'"
    by blast+
  have co: "no_radio_connect_since w0 w'"
    if h: "no_radio_connect_since w0 w" "loadCredentials env w = None" "connect (Suc n) env w = Some (Inr (ok, w'))"
    for w0 w ok w'
  proof (cases "ensure_initialized env w")
    case (Inl e)
    with h(3) show ?thesis by (simp add: connect.simps)
  next
    case (Inr p)
    obtain ok1 w1 where p: "p = (ok1, w1)" by (cases p)
    have w1: "no_radio_connect_since w0 w1" using no_radio_ensure[OF h(1)] Inr p by simp
    have l1: "loadCredentials env w1 = None" using load_None_ensure[OF h(2)] Inr p by simp
    show ?thesis
    proof (cases ok1)
      case False
      then have "w' = w1" using h(3) Inr p by (simp add: connect.simps)
      then show ?thesis using w1 by simp
    next
      case True
      then have "startProvisioning n env (ap_name env) [] 1 ''abcd1234'' w1 = Some (Inr (ok, w'))"
        using h(3) Inr p l1 by (simp add: connect.simps)
      then show ?thesis by (rule IHs[OF w1 l1])
    qed
  qed
  have sp: "no_radio_connect_since w0 w'"
    if h: "no_radio_connect_since w0 w" "loadCredentials env w = None"
      "startProvisioning (Suc n) env a b c d w = Some (Inr (ok, w'))"
    for w0 w a b c d ok w'
  proof (cases "ensure_initialized env w")
    case (Inl e)
    with h(3) show ?thesis by (simp add: startProvisioning.simps)
  next
    case (Inr p)
    obtain ok1 w1 where p: "p = (ok1, w1)" by (cases p)
    have w1: "no_radio_connect_since w0 w1" using no_radio_ensure[OF h(1)] Inr p by simp
    have l1: "loadCredentials env w1 = None" using load_None_ensure[OF h(2)] Inr p by simp
    let ?w4 = "emit Prov_mgr_init
                 ((snd (clearStoredCredentials env w1))\<lparr>wifi_event_group :=
                    wifi_event_group (snd (clearStoredCredentials env w1))
                      AND NOT PROVISIONING_DONE\<rparr>)"
    have w4: "no_radio_connect_since w0 ?w4" using w1 by simp
    have w5: "no_radio_connect_since w0 (emit Prov_mgr_deinit ?w4)" using w4 by simp
    have l5: "loadCredentials env (emit Prov_mgr_deinit ?w4) = None"
      using load_None_clear[OF l1] by (simp add: load_emit load_upd)
    have w6: "no_radio_connect_since w0 (emit (Prov_start_provisioning x y z) ?w4)" for x y z
      using w4 by simp
    show ?thesis
    proof (cases "ok1 \<and> \<not> provisioning_active w1 \<and> rc env WIFI_PROV_MGR_INIT = ESP_OK
                   \<and> rc env REGISTER_WIFI_PROV_EVENT = ESP_OK
                   \<and> rc env WIFI_PROV_MGR_IS_PROVISIONED = ESP_OK \<and> provisioned env")
      case True
      then have "connect n env (emit Prov_mgr_deinit ?w4) = Some (Inr (ok, w'))"
        using h(3) Inr p by (simp add: startProvisioning.simps Let_def)
      then show ?thesis by (rule IHc[OF w5 l5])
    next
      case False
      then show ?thesis
        using h(3) Inr p w1 w6
        by (auto simp: startProvisioning.simps Let_def split: if_splits)
    qed
  qed
  from co sp show ?case by blast
qed

lemma no_radio_connect:
  "loadCredentials env w = None \<Longrightarrow> connect n env w = Some (Inr (ok, w')) \<Longrightarrow> no_radio_connect_since w w'"
  using no_radio_connect_startProvisioning[of env n] no_radio_refl by blast


lemma ensure_initialized_ok:
  assumes "initialized w \<or> init_ok env" "state w = DISCONNECTED"
  shows "\<exists>w1. ensure_initialized env w = Inr (True, w1) \<and> initialized w1
      \<and> state w1 = DISCONNECTED \<and> trace w1 = trace w \<and> nvs w1 = nvs w
      \<and> nvs_namespace w1 = nvs_namespace w
      \<and> provisioning_active w1 = provisioning_active w
      \<and> connection_callback w1 = connection_callback w"
proof (cases "initialized w")
  case True
  then show ?thesis using assms(2) by (simp add: ensure_initialized_def)
next
  case False
  then have "init_ok env" using assms(1) by simp
  then show ?thesis using False assms(2)
    by (simp add: ensure_initialized_def init_def initNVS_def initWiFi_def init_ok_def
          updateState_def Let_def)
qed

lemma connect_provisions:
  assumes "initialized w \<or> init_ok env" "\<not> provisioning_active w" "state w = DISCONNECTED"
      "loadCredentials env w = None" "prov_ok env" "\<not> provisioned env"
  shows "\<exists>w'. connect (Suc (Suc n)) env w = Some (Inr (True, w'))
         \<and> state w' = PROVISIONING \<and> provisioning_active w'
         \<and> trace w' = trace w
              @ [Prov_mgr_init,
                 Prov_start_provisioning WIFI_PROV_SECURITY_1 (Some ''abcd1234'') (ap_name env)]
              @ (if connection_callback w then [Callback PROVISIONING] else [])"
proof -
  from ensure_initialized_ok[OF assms(1,3)] obtain w1 where w1:
    "ensure_initialized env w = Inr (True, w1)" "initialized w1"
    "state w1 = DISCONNECTED" "trace w1 = trace w" "nvs w1 = nvs w"
    "nvs_namespace w1 = nvs_namespace w" "provisioning_active w1 = provisioning_active w"
    "connection_callback w1 = connection_callback w"
    by blast
  have l1: "loadCredentials env w1 = None"
    using load_cong[OF w1(5,6), of env] assms(4) by simp
  have "connect (Suc (Suc n)) env w
          = startProvisioning (Suc n) env (ap_name env) [] 1 ''abcd1234'' w1"
    using w1(1) l1 by (simp add: connect.simps)
  moreover have "c_str ''abcd1234'' = ''abcd1234''" by (simp add: c_str_def)
  moreover have "\<not> provisioning_active w1" using w1(7) assms(2) by simp
  ultimately show ?thesis
    using startProvisioning_unprovisioned[of w1 env n "ap_name env" "[]" 1 "''abcd1234''"]
      w1(2,3,4,8) assms(5,6)
    by (auto simp: ap_name_c_str)
qed

lemma connect_session_active:
  assumes "initialized w" "provisioning_active w" "loadCredentials env w = None"
  shows "connect (Suc (Suc n)) env w = Some (Inr (True, w))"
  using assms by (simp add: connect.simps startProvisioning.simps ensure_initialized_def)

lemma session_left_run_result: "run 1 session_left_run w_ready = Some (Inr w_session_left)"
  by (simp add: session_left_run_def w_session_left_def w_ready_def env_all_ok_def step_def
        dropping_result_def startProvisioning.simps ensure_initialized_def Let_def
        clearStoredCredentials_def nvs_erase_key_def disconnect_def updateState_def emit_def
        c_str_def PROVISIONING_DONE_def)

text \<open>
  C7 (amended). Take a manager in the state Disconnected, initialised or initialised by
  the call itself, with no provisioning session flagged active and no credentials to
  load, and let the provisioning manager serve its calls and report the device as not
  provisioned. Then \<open>connect()\<close> returns true, the state is Provisioning and the session
  is active; all it sends is the initialisation of the provisioning manager, the start of
  provisioning (security 1, the default proof of possession, the access point named after
  the hardware address) and the notification of the observer; two nested calls suffice.
  On an initialised manager with a session still flagged active and no credentials to
  load, \<open>connect()\<close> returns true and changes nothing, whatever the state is: a manager
  that is Disconnected stays Disconnected. And whatever the libraries answer and whatever
  the bound on the nesting, a call of \<open>connect()\<close> that finds no credentials to load and
  returns has sent no radio connect.
\<close>

theorem connect_without_credentials_provisions:
  "((initialized w \<or> init_ok env) \<and> \<not> provisioning_active w \<and> state w = DISCONNECTED
      \<and> loadCredentials env w = None \<and> prov_ok env \<and> \<not> provisioned env \<longrightarrow>
      (\<exists>w'. connect (Suc (Suc n)) env w = Some (Inr (True, w'))
         \<and> state w' = PROVISIONING \<and> provisioning_active w'
         \<and> trace w' = trace w
              @ [Prov_mgr_init,
                 Prov_start_provisioning WIFI_PROV_SECURITY_1 (Some ''abcd1234'') (ap_name env)]
              @ (if connection_callback w then [Callback PROVISIONING] else [])))
   \<and> (initialized w \<and> provisioning_active w \<and> loadCredentials env w = None \<longrightarrow>
        connect (Suc (Suc n)) env w = Some (Inr (True, w)))
   \<and> (loadCredentials env w = None \<and> connect m env w = Some (Inr (ok, w'')) \<longrightarrow>
        no_radio_connect_since w w'')"
proof (intro conjI impI)
  assume "(initialized w \<or> init_ok env) \<and> \<not> provisioning_active w \<and> state w = DISCONNECTED
      \<and> loadCredentials env w = None \<and> prov_ok env \<and> \<not> provisioned env"
  then show "\<exists>w'. connect (Suc (Suc n)) env w = Some (Inr (True, w'))
         \<and> state w' = PROVISIONING \<and> provisioning_active w'
         \<and> trace w' = trace w
              @ [Prov_mgr_init,
                 Prov_start_provisioning WIFI_PROV_SECURITY_1 (Some ''abcd1234'') (ap_name env)]
              @ (if connection_callback w then [Callback PROVISIONING] else [])"
    using connect_provisions[of w env n] by blast
next
  assume "initialized w \<and> provisioning_active w \<and> loadCredentials env w = None"
  then show "connect (Suc (Suc n)) env w = Some (Inr (True, w))"
    using connect_session_active[of w env n] by blast
next
  assume "loadCredentials env w = None \<and> connect m env w = Some (Inr (ok, w''))"
  then show "no_radio_connect_since w w''" using no_radio_connect by blast
qed

theorem connect_without_credentials_provisions_witness:
  "initialized w_ready \<and> \<not> provisioning_active w_ready \<and> state w_ready = DISCONNECTED
   \<and> loadCredentials env_all_ok w_ready = None \<and> prov_ok env_all_ok \<and> \<not> provisioned env_all_ok
   \<and> (\<exists>w'. connect 2 env_all_ok w_ready = Some (Inr (True, w'))
          \<and> state w' = PROVISIONING
          \<and> trace w' = [Prov_mgr_init,
                Prov_start_provisioning WIFI_PROV_SECURITY_1 (Some ''abcd1234'') ''zubIOT_ABCDEF'',
                Callback PROVISIONING]
          \<and> no_radio_connect_since w_ready w')
   \<and> \<not> initialized w_fresh \<and> init_ok env_all_ok
   \<and> (\<exists>w'. connect 2 env_all_ok w_fresh = Some (Inr (True, w')) \<and> state w' = PROVISIONING)
   \<and> initialized w_session_left \<and> provisioning_active w_session_left
   \<and> loadCredentials env_all_ok w_session_left = None
   \<and> connect 2 env_all_ok w_session_left = Some (Inr (True, w_session_left))"
proof -
  have h: "initialized w_ready" "\<not> provisioning_active w_ready" "state w_ready = DISCONNECTED"
    "loadCredentials env_all_ok w_ready = None" "prov_ok env_all_ok" "\<not> provisioned env_all_ok"
    by (simp_all add: w_ready_load env_all_ok_serves) (simp_all add: w_ready_def env_all_ok_def)
  have t: "connection_callback w_ready" "trace w_ready = []" by (simp_all add: w_ready_def)
  have f: "\<not> initialized w_fresh" "init_ok env_all_ok" "\<not> provisioning_active w_fresh"
    "state w_fresh = DISCONNECTED" "loadCredentials env_all_ok w_fresh = None"
    by (simp_all add: env_all_ok_serves w_fresh_def w_ready_load load_upd_initialized)
       (simp_all add: w_ready_def)
  have a: "initialized w_session_left" "provisioning_active w_session_left"
    "loadCredentials env_all_ok w_session_left = None"
    by (simp_all add: w_session_left_def load_upd w_ready_load) (simp_all add: w_ready_def)
  have two: "(2::nat) = Suc (Suc 0)" by simp
  from connect_without_credentials_provisions
         [of w_ready env_all_ok 0 0 True w_ready, THEN conjunct1] h t
  obtain w' where w': "connect 2 env_all_ok w_ready = Some (Inr (True, w'))"
      "state w' = PROVISIONING"
      "trace w' = [Prov_mgr_init,
                Prov_start_provisioning WIFI_PROV_SECURITY_1 (Some ''abcd1234'') ''zubIOT_ABCDEF'',
                Callback PROVISIONING]"
    unfolding two by (auto simp: ap_name_example)
  from connect_without_credentials_provisions
         [of w_ready env_all_ok 0 2 True w', THEN conjunct2, THEN conjunct2] h(4) w'(1)
  have q: "no_radio_connect_since w_ready w'" by blast
  from connect_without_credentials_provisions
         [of w_fresh env_all_ok 0 0 True w_fresh, THEN conjunct1] f h(5,6)
  obtain v where v: "connect 2 env_all_ok w_fresh = Some (Inr (True, v))" "state v = PROVISIONING"
    unfolding two by blast
  from connect_without_credentials_provisions
         [of w_session_left env_all_ok 0 0 True w_session_left, THEN conjunct2, THEN conjunct1] a
  have s: "connect 2 env_all_ok w_session_left = Some (Inr (True, w_session_left))"
    unfolding two by blast
  from h w' q f(1,2) v a s show ?thesis by blast
qed

text \<open>
  After \<open>startProvisioning\<close> and \<open>disconnect()\<close> the manager is Disconnected with nothing
  stored and the session still flagged active; \<open>connect()\<close> then returns true and leaves
  the manager as it is, in the state Disconnected.
\<close>

theorem connect_with_session_left_stays_disconnected:
  "run 1 session_left_run w_ready = Some (Inr w_session_left)
   \<and> state w_session_left = DISCONNECTED
   \<and> loadCredentials env_all_ok w_session_left = None
   \<and> connect 2 env_all_ok w_session_left = Some (Inr (True, w_session_left))
   \<and> state w_session_left \<noteq> PROVISIONING"
proof (intro conjI)
  show "run 1 session_left_run w_ready = Some (Inr w_session_left)"
    by (rule session_left_run_result)
  show "state w_session_left = DISCONNECTED" by (simp add: w_session_left_def w_ready_def)
  show l: "loadCredentials env_all_ok w_session_left = None"
    by (simp add: w_session_left_def load_upd w_ready_load)
  have two: "(2::nat) = Suc (Suc 0)" by simp
  have "initialized w_session_left" "provisioning_active w_session_left"
    by (simp_all add: w_session_left_def w_ready_def)
  then show "connect 2 env_all_ok w_session_left = Some (Inr (True, w_session_left))"
    unfolding two using l by (rule connect_session_active)
  show "state w_session_left \<noteq> PROVISIONING" by (simp add: w_session_left_def w_ready_def)
qed

text \<open>
  C1 (amended). \<open>startProvisioning\<close> called on an initialised manager with no session
  active first erases the stored credentials. When the storage serves the erasure and the
  provisioning manager serves its calls and reports the device as not provisioned, the
  access point is advertised whether credentials were stored or not: the call returns
  true, the state is Provisioning, the session is active, no radio connect is sent, and
  the credentials can no longer be loaded.
\<close>

theorem startProvisioning_clears_then_advertises:
  assumes "initialized w" "\<not> provisioning_active w" "erase_ok env" "prov_ok env"
    "\<not> provisioned env"
  shows "\<exists>w'. startProvisioning (Suc n) env ap_ssid ap_password security pop w
               = Some (Inr (True, w'))
      \<and> state w' = PROVISIONING \<and> provisioning_active w' \<and> loadCredentials env w' = None
      \<and> trace w' = trace w
           @ [Prov_mgr_init,
              Prov_start_provisioning
                (if security = 0 then WIFI_PROV_SECURITY_0 else WIFI_PROV_SECURITY_1)
                (if security = 0 then None else Some (c_str pop)) (c_str ap_ssid)]
           @ (if state w \<noteq> PROVISIONING \<and> connection_callback w then [Callback PROVISIONING]
              else [])"
proof -
  from startProvisioning_unprovisioned[OF assms(1,2,4,5), of n ap_ssid ap_password security pop]
  obtain w' where w':
      "startProvisioning (Suc n) env ap_ssid ap_password security pop w = Some (Inr (True, w'))"
      "state w' = PROVISIONING" "provisioning_active w'"
      "nvs w' = nvs (snd (clearStoredCredentials env w))" "nvs_namespace w' = nvs_namespace w"
      "trace w' = trace w
           @ [Prov_mgr_init,
              Prov_start_provisioning
                (if security = 0 then WIFI_PROV_SECURITY_0 else WIFI_PROV_SECURITY_1)
                (if security = 0 then None else Some (c_str pop)) (c_str ap_ssid)]
           @ (if state w \<noteq> PROVISIONING \<and> connection_callback w then [Callback PROVISIONING]
              else [])"
    by blast
  have "loadCredentials env w' = loadCredentials env (snd (clearStoredCredentials env w))"
    by (rule load_cong) (simp_all add: w' clear_fields)
  then have "loadCredentials env w' = None" by (simp add: load_after_clear[OF assms(3)])
  with w' show ?thesis by blast
qed

theorem startProvisioning_clears_then_advertises_witness:
  "initialized w_stored \<and> \<not> provisioning_active w_stored \<and> erase_ok env_all_ok
   \<and> prov_ok env_all_ok \<and> \<not> provisioned env_all_ok
   \<and> loadCredentials env_all_ok w_stored = Some (''home'', ''secret'')
   \<and> (\<exists>w'. startProvisioning 1 env_all_ok ''setup'' [] 1 ''abcd1234'' w_stored
              = Some (Inr (True, w'))
          \<and> state w' = PROVISIONING \<and> loadCredentials env_all_ok w' = None)"
proof -
  have h: "initialized w_stored" "\<not> provisioning_active w_stored" "erase_ok env_all_ok"
    "prov_ok env_all_ok" "\<not> provisioned env_all_ok"
    by (simp_all add: env_all_ok_serves) (simp_all add: w_stored_def w_ready_def env_all_ok_def)
  have one: "(1::nat) = Suc 0" by simp
  from startProvisioning_clears_then_advertises[OF h, of 0 "''setup''" "[]" 1 "''abcd1234''"]
    h w_stored_load
  show ?thesis unfolding one by blast
qed

text \<open>
  With the credentials \<open>home\<close> and \<open>secret\<close> stored and no session active,
  \<open>startProvisioning\<close> erases them and advertises the access point \<open>setup\<close>; it sends no
  radio connect.
\<close>

theorem startProvisioning_with_stored_credentials_advertises:
  "loadCredentials env_all_ok w_stored = Some (''home'', ''secret'')
   \<and> \<not> provisioning_active w_stored
   \<and> startProvisioning 1 env_all_ok ''setup'' [] 1 ''abcd1234'' w_stored
       = Some (Inr (True, w_ready\<lparr>state := PROVISIONING, provisioning_active := True,
           trace := [Prov_mgr_init,
                     Prov_start_provisioning WIFI_PROV_SECURITY_1 (Some ''abcd1234'') ''setup'',
                     Callback PROVISIONING]\<rparr>))"
proof (intro conjI)
  show "loadCredentials env_all_ok w_stored = Some (''home'', ''secret'')"
    by (rule w_stored_load)
  show "\<not> provisioning_active w_stored" by (simp add: w_stored_def w_ready_def)
  show "startProvisioning 1 env_all_ok ''setup'' [] 1 ''abcd1234'' w_stored
       = Some (Inr (True, w_ready\<lparr>state := PROVISIONING, provisioning_active := True,
           trace := [Prov_mgr_init,
                     Prov_start_provisioning WIFI_PROV_SECURITY_1 (Some ''abcd1234'') ''setup'',
                     Callback PROVISIONING]\<rparr>))"
    by (simp add: startProvisioning.simps ensure_initialized_def Let_def updateState_def
          emit_def clearStoredCredentials_def nvs_erase_key_def w_stored_def w_ready_def
          env_all_ok_def NVS_KEY_SSID_def NVS_KEY_PASSWORD_def c_str_def PROVISIONING_DONE_def
          fun_eq_iff)
qed

text \<open>
  When the provisioning manager reports the device as provisioned, \<open>startProvisioning\<close>
  has erased the credentials before it calls \<open>connect()\<close>, which finds none and calls
  \<open>startProvisioning\<close> again: whatever the bound on the nesting, the call does not return.
\<close>

lemma startProvisioning_provisioned_never_returns:
  assumes "erase_ok env" "prov_ok env" "provisioned env"
  shows "(\<forall>w a b c d. initialized w \<and> \<not> provisioning_active w \<longrightarrow>
            startProvisioning n env a b c d w = None)
       \<and> (\<forall>w. initialized w \<and> \<not> provisioning_active w \<and> loadCredentials env w = None \<longrightarrow>
            connect n env w = None)"
proof (induction n)
  case 0
  show ?case by (simp add: connect.simps startProvisioning.simps)
next
  case (Suc n)
  have sp: "startProvisioning (Suc n) env a b c d w = None"
    if w: "initialized w" "\<not> provisioning_active w" for w a b c d
  proof -
    let ?w4 = "emit Prov_mgr_deinit (emit Prov_mgr_init
                 ((snd (clearStoredCredentials env w))\<lparr>wifi_event_group :=
                    wifi_event_group (snd (clearStoredCredentials env w))
                      AND NOT PROVISIONING_DONE\<rparr>))"
    have eq: "startProvisioning (Suc n) env a b c d w = connect n env ?w4"
      using w assms(2,3)
      by (simp add: startProvisioning.simps ensure_initialized_def prov_ok_def Let_def)
    have "loadCredentials env ?w4 = None"
      by (simp add: load_emit load_upd load_after_clear[OF assms(1)])
    moreover have "initialized ?w4" "\<not> provisioning_active ?w4"
      using w by (simp_all add: emit_def clear_fields)
    ultimately show ?thesis using Suc eq by simp
  qed
  have co: "connect (Suc n) env w = None"
    if w: "initialized w" "\<not> provisioning_active w" "loadCredentials env w = None" for w
  proof -
    have "connect (Suc n) env w = startProvisioning n env (ap_name env) [] 1 ''abcd1234'' w"
      using w by (simp add: connect.simps ensure_initialized_def)
    then show ?thesis using Suc w by simp
  qed
  from sp co show ?case by blast
qed

subsection \<open>The observer\<close>

text \<open>
  \<open>notified_ok\<close> is kept by every member function and handler: by \<open>updateState\<close>, the
  only place where the state is written and the observer called, and by everything
  built from it.
\<close>

lemma callbacks_append: "callbacks (xs @ ys) = callbacks xs @ callbacks ys"
  by (induction xs rule: callbacks.induct) simp_all

lemma notified_ok_upd [simp]:
  "notified_ok s0 (w\<lparr>nvs := m\<rparr>) = notified_ok s0 w"
  "notified_ok s0 (w\<lparr>wifi_event_group := g\<rparr>) = notified_ok s0 w"
  "notified_ok s0 (w\<lparr>initialized := b\<rparr>) = notified_ok s0 w"
  "notified_ok s0 (w\<lparr>provisioning_active := b\<rparr>) = notified_ok s0 w"
  "notified_ok s0 (w\<lparr>current_ssid := x\<rparr>) = notified_ok s0 w"
  "notified_ok s0 (w\<lparr>current_password := x\<rparr>) = notified_ok s0 w"
  by (simp_all add: notified_ok_def)

lemma notified_ok_emit [simp]:
  "callbacks [e] = [] \<Longrightarrow> notified_ok s0 (emit e w) = notified_ok s0 w"
  by (simp add: notified_ok_def emit_def callbacks_append)

lemma notified_ok_updateState [simp]:
  "notified_ok s0 w \<Longrightarrow> notified_ok s0 (updateState s w)"
  by (auto simp: notified_ok_def updateState_def emit_def callbacks_append Let_def
        distinct_adj_append_iff simp flip: append_Cons)

lemma notified_ok_save [simp]:
  "notified_ok s0 (snd (saveCredentials env a b w)) = notified_ok s0 w"
  by (simp add: saveCredentials_def nvs_set_str_def)

lemma notified_ok_clear [simp]:
  "notified_ok s0 (snd (clearStoredCredentials env w)) = notified_ok s0 w"
  by (simp add: clearStoredCredentials_def nvs_erase_key_def)

lemma notified_ok_disconnect [simp]:
  "notified_ok s0 w \<Longrightarrow> notified_ok s0 (snd (disconnect env w))"
  by (simp add: disconnect_def Let_def)

lemma notified_ok_init:
  "notified_ok s0 w \<Longrightarrow> init env w = Inr (ok, w') \<Longrightarrow> notified_ok s0 w'"
  by (auto simp: init_def initNVS_def initWiFi_def Let_def split: if_splits)

lemma notified_ok_ensure:
  "notified_ok s0 w \<Longrightarrow> ensure_initialized env w = Inr (ok, w') \<Longrightarrow> notified_ok s0 w'"
  by (auto simp: ensure_initialized_def notified_ok_init split: if_splits)

lemma notified_ok_connect_with:
  assumes "notified_ok s0 w" "connect_with env ssid password save w = Inr (ok, w')"
  shows "notified_ok s0 w'"
proof (cases "ensure_initialized env w")
  case (Inl e)
  with assms(2) show ?thesis by (simp add: connect_with_def)
next
  case (Inr p)
  obtain ok1 w1 where p: "p = (ok1, w1)" by (cases p)
  have w1: "notified_ok s0 w1" using notified_ok_ensure[OF assms(1)] Inr p by simp
  show ?thesis
    using assms(2) Inr p w1
    by (auto simp: connect_with_def Let_def split: if_splits)
qed

lemma notified_ok_stop [simp]:
  "notified_ok s0 w \<Longrightarrow> notified_ok s0 (snd (stopProvisioning w))"
  by (simp add: stopProvisioning_def Let_def)

lemma notified_ok_eventHandler [simp]:
  "notified_ok s0 w \<Longrightarrow> notified_ok s0 (eventHandler ev w)"
  by (simp add: eventHandler_def Let_def split: esp_event.splits)

lemma notified_ok_provisioningEventHandler:
  assumes "notified_ok s0 w" "provisioningEventHandler env ev w = Inr w'"
  shows "notified_ok s0 w'"
proof -
  let ?w3 = "(emit Prov_mgr_deinit w)\<lparr>provisioning_active := False,
               wifi_event_group := wifi_event_group (emit Prov_mgr_deinit w)
                                     OR PROVISIONING_DONE\<rparr>"
  have w3: "notified_ok s0 ?w3" using assms(1) by simp
  have cw: "notified_ok s0 v" if "connect_with env a b False ?w3 = Inr (ok, v)" for a b ok v
    using notified_ok_connect_with[OF w3 that] .
  show ?thesis
    using assms w3 cw
    by (auto simp: provisioningEventHandler_def Let_def
          split: esp_event.splits wifi_prov_cb_event_t.splits option.splits sum.splits)
qed

lemma notified_ok_connect_startProvisioning:
  "(\<forall>w ok w'. notified_ok s0 w \<longrightarrow> connect n env w = Some (Inr (ok, w')) \<longrightarrow> notified_ok s0 w')
   \<and> (\<forall>w a b c d ok w'. notified_ok s0 w \<longrightarrow>
         startProvisioning n env a b c d w = Some (Inr (ok, w')) \<longrightarrow> notified_ok s0 w')"
proof (induction n)
  case 0
  show ?case by (simp add: connect.simps startProvisioning.simps)
next
  case (Suc n)
  then have IHc: "\<And>w ok w'. notified_ok s0 w \<Longrightarrow> connect n env w = Some (Inr (ok, w'))
                    \<Longrightarrow> notified_ok s0 w'"
    and IHs: "\<And>w a b c d ok w'. notified_ok s0 w
                \<Longrightarrow> startProvisioning n env a b c d w = Some (Inr (ok, w'))
                \<Longrightarrow> notified_ok s0 w'"
    by blast+
  have co: "notified_ok s0 w'"
    if h: "notified_ok s0 w" "connect (Suc n) env w = Some (Inr (ok, w'))" for w ok w'
  proof (cases "ensure_initialized env w")
    case (Inl e)
    with h(2) show ?thesis by (simp add: connect.simps)
  next
    case (Inr p)
    obtain ok1 w1 where p: "p = (ok1, w1)" by (cases p)
    have w1: "notified_ok s0 w1" using notified_ok_ensure[OF h(1)] Inr p by simp
    show ?thesis
    proof (cases ok1)
      case False
      then have "w' = w1" using h(2) Inr p by (simp add: connect.simps)
      then show ?thesis using w1 by simp
    next
      case True
      show ?thesis
      proof (cases "loadCredentials env w1")
        case None
        then have "startProvisioning n env (ap_name env) [] 1 ''abcd1234'' w1
                     = Some (Inr (ok, w'))"
          using h(2) Inr p True by (simp add: connect.simps)
        then show ?thesis by (rule IHs[OF w1])
      next
        case (Some cred)
        obtain ssid password where cred: "cred = (ssid, password)" by (cases cred)
        have "connect_with env ssid password False w1 = Inr (ok, w')"
          using h(2) Inr p True Some cred by (simp add: connect.simps)
        then show ?thesis by (rule notified_ok_connect_with[OF w1])
      qed
    qed
  qed
  have sp: "notified_ok s0 w'"
    if h: "notified_ok s0 w" "startProvisioning (Suc n) env a b c d w = Some (Inr (ok, w'))"
    for w a b c d ok w'
  proof (cases "ensure_initialized env w")
    case (Inl e)
    with h(2) show ?thesis by (simp add: startProvisioning.simps)
  next
    case (Inr p)
    obtain ok1 w1 where p: "p = (ok1, w1)" by (cases p)
    have w1: "notified_ok s0 w1" using notified_ok_ensure[OF h(1)] Inr p by simp
    let ?w4 = "emit Prov_mgr_init
                 ((snd (clearStoredCredentials env w1))\<lparr>wifi_event_group :=
                    wifi_event_group (snd (clearStoredCredentials env w1))
                      AND NOT PROVISIONING_DONE\<rparr>)"
    have w4: "notified_ok s0 ?w4" using w1 by simp
    have w5: "notified_ok s0 (emit Prov_mgr_deinit ?w4)" using w4 by simp
    have w6: "notified_ok s0 (emit (Prov_start_provisioning x y z) ?w4)" for x y z
      using w4 by simp
    show ?thesis
    proof (cases "ok1 \<and> \<not> provisioning_active w1 \<and> rc env WIFI_PROV_MGR_INIT = ESP_OK
                   \<and> rc env REGISTER_WIFI_PROV_EVENT = ESP_OK
                   \<and> rc env WIFI_PROV_MGR_IS_PROVISIONED = ESP_OK \<and> provisioned env")
      case True
      then have "connect n env (emit Prov_mgr_deinit ?w4) = Some (Inr (ok, w'))"
        using h(2) Inr p by (simp add: startProvisioning.simps Let_def)
      then show ?thesis by (rule IHc[OF w5])
    next
      case False
      then show ?thesis
        using h(2) Inr p w1 w6
        by (auto simp: startProvisioning.simps Let_def split: if_splits)
    qed
  qed
  from co sp show ?case by blast
qed

lemma notified_ok_connect:
  "notified_ok s0 w \<Longrightarrow> connect n env w = Some (Inr (ok, w')) \<Longrightarrow> notified_ok s0 w'"
  using notified_ok_connect_startProvisioning[of s0 n env] by blast

lemma notified_ok_startProvisioning:
  "notified_ok s0 w \<Longrightarrow> startProvisioning n env a b c d w = Some (Inr (ok, w'))
     \<Longrightarrow> notified_ok s0 w'"
  using notified_ok_connect_startProvisioning[of s0 n env] by blast

lemma dropping_result_Inr: "dropping_result r = Inr w' \<Longrightarrow> \<exists>ok. r = Inr (ok, w')"
  by (auto simp: dropping_result_def split: sum.splits)

lemma notified_ok_step:
  assumes "notified_ok s0 w" "c \<noteq> SetConnectionCallback False" "step n env c w = Some (Inr w')"
  shows "notified_ok s0 w'"
proof (cases c)
  case Init
  then have "dropping_result (init env w) = Inr w'" using assms(3) by (simp add: step_def)
  then obtain ok where "init env w = Inr (ok, w')" using dropping_result_Inr by blast
  then show ?thesis by (rule notified_ok_init[OF assms(1)])
next
  case Connect
  then obtain r where "connect n env w = Some r" "dropping_result r = Inr w'"
    using assms(3) by (auto simp: step_def)
  then obtain ok where "connect n env w = Some (Inr (ok, w'))"
    using dropping_result_Inr by blast
  then show ?thesis by (rule notified_ok_connect[OF assms(1)])
next
  case (ConnectWith ssid password save)
  then have "dropping_result (connect_with env ssid password save w) = Inr w'"
    using assms(3) by (simp add: step_def)
  then obtain ok where "connect_with env ssid password save w = Inr (ok, w')"
    using dropping_result_Inr by blast
  then show ?thesis by (rule notified_ok_connect_with[OF assms(1)])
next
  case Disconnect
  then show ?thesis using assms(1,3) by (auto simp: step_def)
next
  case (StartProvisioning a b c d)
  then obtain r where "startProvisioning n env a b c d w = Some r" "dropping_result r = Inr w'"
    using assms(3) by (auto simp: step_def)
  then obtain ok where "startProvisioning n env a b c d w = Some (Inr (ok, w'))"
    using dropping_result_Inr by blast
  then show ?thesis by (rule notified_ok_startProvisioning[OF assms(1)])
next
  case StopProvisioning
  then show ?thesis using assms(1,3) by (auto simp: step_def)
next
  case (SetConnectionCallback callback)
  then show ?thesis
    using assms by (auto simp: step_def setConnectionCallback_def notified_ok_def)
next
  case ClearStoredCredentials
  then show ?thesis using assms(1,3) by (auto simp: step_def)
next
  case (Event ev)
  show ?thesis
  proof (cases "\<exists>e. ev = WIFI_PROV_EVENT e")
    case True
    then have "provisioningEventHandler env ev w = Inr w'"
      using assms(3) Event by (auto simp: step_def)
    then show ?thesis by (rule notified_ok_provisioningEventHandler[OF assms(1)])
  next
    case False
    then have "w' = eventHandler ev w"
      using assms(3) Event by (cases ev) (simp_all add: step_def)
    then show ?thesis using assms(1) by simp
  qed
qed

lemma notified_ok_run:
  "notified_ok s0 w \<Longrightarrow> \<forall>(env, c) \<in> set cs. c \<noteq> SetConnectionCallback False
     \<Longrightarrow> run n cs w = Some (Inr w') \<Longrightarrow> notified_ok s0 w'"
proof (induction cs arbitrary: w)
  case Nil
  then show ?case by simp
next
  case (Cons a cs)
  obtain env c where a: "a = (env, c)" by (cases a)
  from Cons.prems(3) a obtain w1
    where s: "step n env c w = Some (Inr w1)" and r: "run n cs w1 = Some (Inr w')"
    by (auto split: option.splits sum.splits)
  have "notified_ok s0 w1" using notified_ok_step[OF Cons.prems(1) _ s] Cons.prems(2) a by simp
  then show ?case using Cons.IH[OF _ _ r] Cons.prems(2) by simp
qed

lemma example_run_result: "run 1 example_run w_ready = Some (Inr w_after_example_run)"
  by (simp add: example_run_def w_ready_def w_after_example_run_def env_all_ok_def step_def
        dropping_result_def connect_with_def ensure_initialized_def disconnect_def
        eventHandler_def updateState_def emit_def Let_def c_str_def WIFI_CONNECTED_BIT_def
        WIFI_FAIL_BIT_def)

text \<open>
  C4. Take a manager with an observer registered that has not been notified yet, and any
  sequence of calls and events that does not remove the observer (the library answering
  each of them as it likes). If the sequence runs to its end, the states the observer was
  called with, put after the initial state, never show the same state twice in a row, and
  the last of them is the current state: the observer is called once for each change of
  the state to a different value, and never for a transition that re-establishes the
  current state.
\<close>

theorem observer_fires_once_per_state_change:
  assumes "connection_callback w0" "callbacks (trace w0) = []"
    "\<forall>(env, c) \<in> set cs. c \<noteq> SetConnectionCallback False"
    "run n cs w0 = Some (Inr w)"
  shows "distinct_adj (state w0 # callbacks (trace w))
       \<and> last (state w0 # callbacks (trace w)) = state w"
proof -
  have "notified_ok (state w0) w0" using assms(1,2) by (simp add: notified_ok_def)
  from notified_ok_run[OF this assms(3,4)] show ?thesis by (simp add: notified_ok_def)
qed

theorem observer_fires_once_per_state_change_witness:
  "connection_callback w_ready \<and> callbacks (trace w_ready) = []
   \<and> SetConnectionCallback False \<notin> set (map snd example_run)
   \<and> run 1 example_run w_ready = Some (Inr w_after_example_run)
   \<and> callbacks (trace w_after_example_run) = [CONNECTING, CONNECTED, DISCONNECTED]
   \<and> distinct_adj (state w_ready # callbacks (trace w_after_example_run))
   \<and> last (state w_ready # callbacks (trace w_after_example_run)) = state w_after_example_run"
proof -
  have h: "connection_callback w_ready" "callbacks (trace w_ready) = []"
    "\<forall>(env, c) \<in> set example_run. c \<noteq> SetConnectionCallback False"
    by (simp_all add: w_ready_def example_run_def)
  have c: "callbacks (trace w_after_example_run) = [CONNECTING, CONNECTED, DISCONNECTED]"
    by (simp add: w_after_example_run_def)
  have d: "SetConnectionCallback False \<notin> set (map snd example_run)"
    by (simp add: example_run_def)
  from observer_fires_once_per_state_change[OF h example_run_result] h(1,2) c d
    example_run_result
  show ?thesis by blast
qed

end
